theory Spec2Isabelle
  imports Complex_Main
begin

section \<open>Feature engineering for the gold trading bot\<close>

text \<open>
  A shallow embedding of \<^verbatim>\<open>src/features/Feature_Engineering_Gold.py\<close>: the class
  \<^verbatim>\<open>GoldFeatureEngineering\<close>, its constructor and its four passes
  \<^verbatim>\<open>add_moving_averages\<close>, \<^verbatim>\<open>add_momentum_indicators\<close>,
  \<^verbatim>\<open>add_volatility_indicators\<close> and \<^verbatim>\<open>add_volume_indicators\<close>.
\<close>

subsection \<open>Cells\<close>

text \<open>
  A cell of a numeric column. Python's float64 is idealised: a finite value is a real
  number (rounding is not modelled), the two infinities and not-a-number are kept as
  values of their own, and the sign of zero is not tracked. The arithmetic follows
  IEEE 754 on these values; in particular a division by zero gives an infinity or
  \<open>NaN\<close>, never a number.
\<close>

datatype cell = NaN | Num real | PInf | NInf

fun cell_neg :: "cell \<Rightarrow> cell" where
  "cell_neg NaN = NaN"
| "cell_neg (Num x) = Num (- x)"
| "cell_neg PInf = NInf"
| "cell_neg NInf = PInf"

fun cell_add :: "cell \<Rightarrow> cell \<Rightarrow> cell" where
  "cell_add NaN _ = NaN"
| "cell_add _ NaN = NaN"
| "cell_add (Num x) (Num y) = Num (x + y)"
| "cell_add PInf NInf = NaN"
| "cell_add NInf PInf = NaN"
| "cell_add PInf _ = PInf"
| "cell_add NInf _ = NInf"
| "cell_add (Num x) PInf = PInf"
| "cell_add (Num x) NInf = NInf"

definition cell_sub :: "cell \<Rightarrow> cell \<Rightarrow> cell" where
  "cell_sub a b = cell_add a (cell_neg b)"

text \<open>The sign of a cell that is not \<open>NaN\<close>: \<open>-1\<close>, \<open>0\<close> or \<open>1\<close>.\<close>

fun cell_sgn :: "cell \<Rightarrow> int" where
  "cell_sgn NaN = 0"
| "cell_sgn (Num x) = (if x < 0 then - 1 else if x = 0 then 0 else 1)"
| "cell_sgn PInf = 1"
| "cell_sgn NInf = - 1"

definition signed_inf :: "int \<Rightarrow> cell" where
  "signed_inf s = (if s < 0 then NInf else if s = 0 then NaN else PInf)"

fun cell_mul :: "cell \<Rightarrow> cell \<Rightarrow> cell" where
  "cell_mul NaN _ = NaN"
| "cell_mul _ NaN = NaN"
| "cell_mul (Num x) (Num y) = Num (x * y)"
| "cell_mul a b = signed_inf (cell_sgn a * cell_sgn b)"

fun cell_div :: "cell \<Rightarrow> cell \<Rightarrow> cell" where
  "cell_div NaN _ = NaN"
| "cell_div _ NaN = NaN"
| "cell_div (Num x) (Num y) = (if y = 0 then signed_inf (cell_sgn (Num x)) else Num (x / y))"
| "cell_div (Num x) _ = Num 0"
| "cell_div a (Num y) = signed_inf (cell_sgn a * (if y < 0 then - 1 else 1))"
| "cell_div _ _ = NaN"

text \<open>The comparison \<^verbatim>\<open>a > b\<close>: false as soon as one side is \<open>NaN\<close>.\<close>

fun cell_gt :: "cell \<Rightarrow> cell \<Rightarrow> bool" where
  "cell_gt NaN _ = False"
| "cell_gt _ NaN = False"
| "cell_gt (Num x) (Num y) = (y < x)"
| "cell_gt PInf PInf = False"
| "cell_gt PInf _ = True"
| "cell_gt NInf _ = False"
| "cell_gt (Num x) PInf = False"
| "cell_gt (Num x) NInf = True"

subsection \<open>Series\<close>

text \<open>
  A series is the list of its cells, in the order of the index. The operators of pandas
  and numpy that the source applies to whole series work cell by cell; every series
  they combine here is a column of one table, so the operands have the same index.
\<close>

type_synonym series = "cell list"

definition series_sub :: "series \<Rightarrow> series \<Rightarrow> series" where
  "series_sub a b = map2 cell_sub a b"

definition series_div :: "series \<Rightarrow> series \<Rightarrow> series" where
  "series_div a b = map2 cell_div a b"

definition series_mul_scalar :: "series \<Rightarrow> cell \<Rightarrow> series" where
  "series_mul_scalar a k = map (\<lambda>x. cell_mul x k) a"

definition series_gt :: "series \<Rightarrow> series \<Rightarrow> bool list" where
  "series_gt a b = map2 cell_gt a b"

text \<open>\<^verbatim>\<open>np.where(cond, x, y)\<close> with scalar \<open>x\<close> and \<open>y\<close>.\<close>

definition np_where :: "bool list \<Rightarrow> cell \<Rightarrow> cell \<Rightarrow> series" where
  "np_where cond x y = map (\<lambda>c. if c then x else y) cond"

text \<open>\<^verbatim>\<open>s.shift(n)\<close>: the cells move down by \<open>n\<close> rows, \<open>NaN\<close> fills the top.\<close>

definition shift :: "nat \<Rightarrow> series \<Rightarrow> series" where
  "shift n s = take (length s) (replicate n NaN @ s)"

text \<open>
  Modelled from the spec: \<^verbatim>\<open>s.rolling(window=w).mean()\<close> belongs to pandas, which is
  not part of the sources. The window at row \<open>i\<close> holds the cells of rows
  \<open>i - (w - 1)\<close> to \<open>i\<close>; the result is undefined (\<open>NaN\<close>) unless the window holds
  \<open>w\<close> observations, where a \<open>NaN\<close> cell is not an observation, and is the sum of the
  observations divided by their number otherwise.
\<close>

definition window_at :: "nat \<Rightarrow> series \<Rightarrow> nat \<Rightarrow> series" where
  "window_at w s i = drop (Suc i - w) (take (Suc i) s)"

definition cell_sum :: "series \<Rightarrow> cell" where
  "cell_sum xs = foldl cell_add (Num 0) xs"

definition observations :: "series \<Rightarrow> series" where
  "observations xs = filter (\<lambda>c. c \<noteq> NaN) xs"

definition rolling_mean :: "nat \<Rightarrow> series \<Rightarrow> series" where
  "rolling_mean w s =
     map (\<lambda>i. let obs = observations (window_at w s i)
              in if length obs < w then NaN
                 else cell_div (cell_sum obs) (Num (real (length obs))))
         [0..<length s]"

text \<open>
  A series computed by a function of the row position, on the index of the series
  \<open>src\<close> it was computed from.
\<close>

definition on_index :: "series \<Rightarrow> (nat \<Rightarrow> cell) \<Rightarrow> series" where
  "on_index src f = map f [0..<length src]"

subsection \<open>The indicator library\<close>

text \<open>
  The indicators of the package \<^verbatim>\<open>ta\<close> and two kernels of pandas are not part of the
  sources. Each of them returns a series on the index of the series it is given; which
  cell it puts at a row is left open here, so everything proved below holds for every
  implementation of them. A field takes the windows, then the input series, then the
  row position.
\<close>

record ta_lib =
  ema_indicator :: "nat \<Rightarrow> series \<Rightarrow> nat \<Rightarrow> cell"
  rsi :: "nat \<Rightarrow> series \<Rightarrow> nat \<Rightarrow> cell"
  stoch :: "nat \<Rightarrow> nat \<Rightarrow> series \<Rightarrow> series \<Rightarrow> series \<Rightarrow> nat \<Rightarrow> cell"
  stoch_signal :: "nat \<Rightarrow> nat \<Rightarrow> series \<Rightarrow> series \<Rightarrow> series \<Rightarrow> nat \<Rightarrow> cell"
  macd_line :: "nat \<Rightarrow> nat \<Rightarrow> nat \<Rightarrow> series \<Rightarrow> nat \<Rightarrow> cell"
  macd_signal_line :: "nat \<Rightarrow> nat \<Rightarrow> nat \<Rightarrow> series \<Rightarrow> nat \<Rightarrow> cell"
  average_true_range :: "nat \<Rightarrow> series \<Rightarrow> series \<Rightarrow> series \<Rightarrow> nat \<Rightarrow> cell"
  bollinger_hband :: "nat \<Rightarrow> nat \<Rightarrow> series \<Rightarrow> nat \<Rightarrow> cell"
  bollinger_mavg :: "nat \<Rightarrow> nat \<Rightarrow> series \<Rightarrow> nat \<Rightarrow> cell"
  bollinger_lband :: "nat \<Rightarrow> nat \<Rightarrow> series \<Rightarrow> nat \<Rightarrow> cell"
  bollinger_wband :: "nat \<Rightarrow> nat \<Rightarrow> series \<Rightarrow> nat \<Rightarrow> cell"
  bollinger_pband :: "nat \<Rightarrow> nat \<Rightarrow> series \<Rightarrow> nat \<Rightarrow> cell"
  on_balance_volume :: "series \<Rightarrow> series \<Rightarrow> nat \<Rightarrow> cell"
  pct_change :: "series \<Rightarrow> nat \<Rightarrow> cell"
  rolling_std :: "nat \<Rightarrow> series \<Rightarrow> nat \<Rightarrow> cell"

text \<open>
  Modelled from the spec: \<^verbatim>\<open>SMAIndicator(close, window).sma_indicator()\<close> belongs to
  \<^verbatim>\<open>ta\<close>. The spec gives it as the simple moving average of the series over the
  window, undefined for the first \<open>window - 1\<close> rows: the rolling mean.
\<close>

definition sma_indicator :: "nat \<Rightarrow> series \<Rightarrow> series" where
  "sma_indicator window close = rolling_mean window close"

text \<open>
  Modelled from the spec: \<^verbatim>\<open>MACD(close, window_slow, window_fast, window_sign)\<close> belongs
  to \<^verbatim>\<open>ta\<close>. The spec gives three series: the MACD line, the signal line, and the
  histogram, which is their difference. The two lines are taken from the library.
\<close>

definition macd :: "ta_lib \<Rightarrow> nat \<Rightarrow> nat \<Rightarrow> nat \<Rightarrow> series \<Rightarrow> series" where
  "macd L slow fast sign close = on_index close (macd_line L slow fast sign close)"

definition macd_signal :: "ta_lib \<Rightarrow> nat \<Rightarrow> nat \<Rightarrow> nat \<Rightarrow> series \<Rightarrow> series" where
  "macd_signal L slow fast sign close = on_index close (macd_signal_line L slow fast sign close)"

definition macd_diff :: "ta_lib \<Rightarrow> nat \<Rightarrow> nat \<Rightarrow> nat \<Rightarrow> series \<Rightarrow> series" where
  "macd_diff L slow fast sign close =
     series_sub (macd L slow fast sign close) (macd_signal L slow fast sign close)"

subsection \<open>Tables\<close>

text \<open>
  A DataFrame: the time index and the columns in their order, each with its name.
  Timestamps are integers. Writing a column replaces the column of that name where it
  stands, or appends a new column; reading a column that is absent raises
  \<^verbatim>\<open>KeyError\<close>.
\<close>

type_synonym timestamp = int

record dataframe =
  index :: "timestamp list"
  columns :: "(string \<times> series) list"

datatype error = KeyError string

definition column_names :: "dataframe \<Rightarrow> string list" where
  "column_names d = map fst (columns d)"

definition df_getitem :: "dataframe \<Rightarrow> string \<Rightarrow> error + series" where
  "df_getitem d name =
     (case map_of (columns d) name of None \<Rightarrow> Inl (KeyError name) | Some s \<Rightarrow> Inr s)"

fun put_column :: "string \<Rightarrow> series \<Rightarrow> (string \<times> series) list \<Rightarrow> (string \<times> series) list" where
  "put_column name s [] = [(name, s)]"
| "put_column name s ((n, t) # cs) =
     (if n = name then (name, s) # cs else (n, t) # put_column name s cs)"

definition df_setitem :: "dataframe \<Rightarrow> string \<Rightarrow> series \<Rightarrow> dataframe" where
  "df_setitem d name s = d\<lparr>columns := put_column name s (columns d)\<rparr>"

definition nrows :: "dataframe \<Rightarrow> nat" where
  "nrows d = length (index d)"

text \<open>What pandas keeps true of every DataFrame: each column has one cell per row.\<close>

definition wf_df :: "dataframe \<Rightarrow> bool" where
  "wf_df d = list_all (\<lambda>(n, s). length s = nrows d) (columns d)"

subsection \<open>The builder and its statements\<close>

text \<open>
  An instance of \<^verbatim>\<open>GoldFeatureEngineering\<close>: its table \<^verbatim>\<open>self.df\<close> and its
  registry \<^verbatim>\<open>self.features_created\<close>.
\<close>

record builder =
  df :: dataframe
  features_created :: "string list"

text \<open>
  A statement of a method body runs on the builder and either completes or raises;
  what it wrote before raising stays written. The methods return nothing, so a
  statement has no result value.
\<close>

type_synonym stmt = "builder \<Rightarrow> error option \<times> builder"

fun block :: "stmt list \<Rightarrow> stmt" where
  "block [] b = (None, b)"
| "block (s # ss) b =
     (case s b of (Some e, b') \<Rightarrow> (Some e, b') | (None, b') \<Rightarrow> block ss b')"

definition for_in :: "'a list \<Rightarrow> ('a \<Rightarrow> stmt) \<Rightarrow> stmt" where
  "for_in xs body = block (map body xs)"

text \<open>\<^verbatim>\<open>self.df[name]\<close> read inside an expression; the rest of the statement follows.\<close>

definition read :: "string \<Rightarrow> (series \<Rightarrow> stmt) \<Rightarrow> stmt" where
  "read name k b =
     (case df_getitem (df b) name of Inl e \<Rightarrow> (Some e, b) | Inr s \<Rightarrow> k s b)"

text \<open>\<^verbatim>\<open>self.df[name] = s\<close> for a series that is already computed.\<close>

definition assign :: "string \<Rightarrow> series \<Rightarrow> stmt" where
  "assign name s b = (None, b\<lparr>df := df_setitem (df b) name s\<rparr>)"

definition append_feature :: "string \<Rightarrow> stmt" where
  "append_feature name b = (None, b\<lparr>features_created := features_created b @ [name]\<rparr>)"

definition extend_features :: "string list \<Rightarrow> stmt" where
  "extend_features names b = (None, b\<lparr>features_created := features_created b @ names\<rparr>)"

text \<open>The decimal numeral of a period, as an f-string prints it.\<close>

definition digit_char :: "nat \<Rightarrow> char" where
  "digit_char n = ''0123456789'' ! n"

function str_nat :: "nat \<Rightarrow> string" where
  "str_nat n = (if n < 10 then [digit_char n] else str_nat (n div 10) @ [digit_char (n mod 10)])"
  by pat_completeness auto
termination
  by (relation "measure id") auto

declare str_nat.simps [simp del]

subsection \<open>The constructor and the four passes\<close>

text \<open>
  \<^verbatim>\<open>__init__\<close>: the builder starts from a copy of the table and an empty registry.
  On values the copy is the table itself; the store below makes the copy explicit.
\<close>

definition GoldFeatureEngineering :: "dataframe \<Rightarrow> builder" where
  "GoldFeatureEngineering d = \<lparr>df = d, features_created = []\<rparr>"

definition add_moving_averages :: "ta_lib \<Rightarrow> stmt" where
  "add_moving_averages L =
     block [
       for_in [5, 10, 20, 50, 100, 200] (\<lambda>period.
         read ''Close'' (\<lambda>close. block [
           assign (''SMA_'' @ str_nat period) (sma_indicator period close),
           append_feature (''SMA_'' @ str_nat period)])),
       for_in [9, 12, 21, 26, 50] (\<lambda>period.
         read ''Close'' (\<lambda>close. block [
           assign (''EMA_'' @ str_nat period) (on_index close (ema_indicator L period close)),
           append_feature (''EMA_'' @ str_nat period)])),
       read ''SMA_20'' (\<lambda>s20. read ''SMA_50'' (\<lambda>s50.
         assign ''SMA_Cross_20_50'' (np_where (series_gt s20 s50) (Num 1) (Num 0)))),
       read ''EMA_12'' (\<lambda>e12. read ''EMA_26'' (\<lambda>e26.
         assign ''EMA_Cross_12_26'' (np_where (series_gt e12 e26) (Num 1) (Num 0))))]"

definition add_momentum_indicators :: "ta_lib \<Rightarrow> stmt" where
  "add_momentum_indicators L =
     block [
       for_in [14, 21] (\<lambda>period.
         read ''Close'' (\<lambda>close. block [
           assign (''RSI_'' @ str_nat period) (on_index close (rsi L period close)),
           append_feature (''RSI_'' @ str_nat period)])),
       read ''High'' (\<lambda>high. read ''Low'' (\<lambda>low. read ''Close'' (\<lambda>close. block [
         assign ''Stoch_K'' (on_index close (stoch L 14 3 high low close)),
         assign ''Stoch_D'' (on_index close (stoch_signal L 14 3 high low close)),
         extend_features [''Stoch_K'', ''Stoch_D'']]))),
       read ''Close'' (\<lambda>close. block [
         assign ''MACD'' (macd L 26 12 9 close),
         assign ''MACD_Signal'' (macd_signal L 26 12 9 close),
         assign ''MACD_Diff'' (macd_diff L 26 12 9 close),
         extend_features [''MACD'', ''MACD_Signal'', ''MACD_Diff'']]),
       for_in [10, 20] (\<lambda>period.
         read ''Close'' (\<lambda>c1. read ''Close'' (\<lambda>c2. read ''Close'' (\<lambda>c3. block [
           assign (''ROC_'' @ str_nat period)
             (series_mul_scalar
                (series_div (series_sub c1 (shift period c2)) (shift period c3)) (Num 100)),
           append_feature (''ROC_'' @ str_nat period)]))))]"

definition add_volatility_indicators :: "ta_lib \<Rightarrow> stmt" where
  "add_volatility_indicators L =
     block [
       for_in [14, 20] (\<lambda>period.
         read ''High'' (\<lambda>high. read ''Low'' (\<lambda>low. read ''Close'' (\<lambda>close. block [
           assign (''ATR_'' @ str_nat period)
             (on_index close (average_true_range L period high low close)),
           append_feature (''ATR_'' @ str_nat period)])))),
       read ''Close'' (\<lambda>close. block [
         assign ''BB_High'' (on_index close (bollinger_hband L 20 2 close)),
         assign ''BB_Mid'' (on_index close (bollinger_mavg L 20 2 close)),
         assign ''BB_Low'' (on_index close (bollinger_lband L 20 2 close)),
         assign ''BB_Width'' (on_index close (bollinger_wband L 20 2 close)),
         assign ''BB_Pct'' (on_index close (bollinger_pband L 20 2 close)),
         extend_features [''BB_High'', ''BB_Mid'', ''BB_Low'', ''BB_Width'', ''BB_Pct'']]),
       for_in [10, 20, 30] (\<lambda>period.
         read ''Close'' (\<lambda>close. block [
           assign (''Volatility_'' @ str_nat period)
             (series_mul_scalar
                (on_index close (rolling_std L period (on_index close (pct_change L close))))
                (Num (sqrt (real period)))),
           append_feature (''Volatility_'' @ str_nat period)]))]"

definition add_volume_indicators :: "ta_lib \<Rightarrow> stmt" where
  "add_volume_indicators L b =
     (if ''Volume'' \<notin> set (column_names (df b)) then (None, b)
      else block [
        read ''Close'' (\<lambda>close. read ''Volume'' (\<lambda>volume. block [
          assign ''OBV'' (on_index close (on_balance_volume L close volume)),
          append_feature ''OBV''])),
        for_in [10, 20] (\<lambda>period.
          read ''Volume'' (\<lambda>volume. block [
            assign (''Volume_SMA_'' @ str_nat period) (rolling_mean period volume),
            append_feature (''Volume_SMA_'' @ str_nat period)])),
        read ''Volume'' (\<lambda>volume. read ''Volume_SMA_20'' (\<lambda>vsma. block [
          assign ''Volume_Ratio'' (series_div volume vsma),
          append_feature ''Volume_Ratio'']))] b)"

text \<open>The four passes by name, and a sequence of calls that ends at the first raise.\<close>

datatype pass = MovingAverages | Momentum | Volatility | Volume

fun run_pass :: "ta_lib \<Rightarrow> pass \<Rightarrow> stmt" where
  "run_pass L MovingAverages = add_moving_averages L"
| "run_pass L Momentum = add_momentum_indicators L"
| "run_pass L Volatility = add_volatility_indicators L"
| "run_pass L Volume = add_volume_indicators L"

definition run_passes :: "ta_lib \<Rightarrow> pass list \<Rightarrow> stmt" where
  "run_passes L ps = block (map (run_pass L) ps)"

subsection \<open>The store\<close>

text \<open>
  Tables are objects: the caller and the builder each hold a reference. The store is
  the list of the tables allocated so far, a reference is a position in it.
  \<^verbatim>\<open>df.copy()\<close> allocates a new table with the contents of the old one, and a pass
  writes through the reference \<^verbatim>\<open>self.df\<close>.
\<close>

type_synonym store = "dataframe list"

record handle =
  self_df :: nat
  self_features_created :: "string list"

definition df_copy :: "store \<Rightarrow> nat \<Rightarrow> store \<times> nat" where
  "df_copy h r = (h @ [h ! r], length h)"

definition init :: "store \<Rightarrow> nat \<Rightarrow> store \<times> handle" where
  "init h r = (case df_copy h r of (h', r') \<Rightarrow>
     (h', \<lparr>self_df = r', self_features_created = []\<rparr>))"

definition call_pass :: "ta_lib \<Rightarrow> pass \<Rightarrow> store \<times> handle \<Rightarrow> error option \<times> store \<times> handle" where
  "call_pass L p = (\<lambda>(h, obj).
     case run_pass L p \<lparr>df = h ! self_df obj, features_created = self_features_created obj\<rparr> of
       (e, b') \<Rightarrow> (e, h[self_df obj := df b'],
                  obj\<lparr>self_features_created := features_created b'\<rparr>))"

fun call_passes :: "ta_lib \<Rightarrow> pass list \<Rightarrow> store \<times> handle \<Rightarrow> error option \<times> store \<times> handle" where
  "call_passes L [] st = (None, st)"
| "call_passes L (p # ps) st =
     (case call_pass L p st of
        (Some e, st') \<Rightarrow> (Some e, st')
      | (None, st') \<Rightarrow> call_passes L ps st')"

subsection \<open>Sample inputs\<close>

text \<open>
  An implementation of the library for the examples below: every indicator passes the
  cell of its last input series through.
\<close>

definition echo_lib :: ta_lib where
  "echo_lib = \<lparr>
     ema_indicator = (\<lambda>w s i. s ! i),
     rsi = (\<lambda>w s i. s ! i),
     stoch = (\<lambda>w k h l c i. c ! i),
     stoch_signal = (\<lambda>w k h l c i. c ! i),
     macd_line = (\<lambda>sl fa sg c i. c ! i),
     macd_signal_line = (\<lambda>sl fa sg c i. Num 1),
     average_true_range = (\<lambda>w h l c i. c ! i),
     bollinger_hband = (\<lambda>w k c i. c ! i),
     bollinger_mavg = (\<lambda>w k c i. c ! i),
     bollinger_lband = (\<lambda>w k c i. c ! i),
     bollinger_wband = (\<lambda>w k c i. c ! i),
     bollinger_pband = (\<lambda>w k c i. c ! i),
     on_balance_volume = (\<lambda>c v i. v ! i),
     pct_change = (\<lambda>c i. c ! i),
     rolling_std = (\<lambda>w s i. s ! i)\<rparr>"

text \<open>Two days of prices without a volume column, and the same days with one.\<close>

definition prices2 :: dataframe where
  "prices2 = \<lparr>index = [1, 2],
     columns = [(''Open'', [Num 10, Num 11]), (''High'', [Num 12, Num 13]),
                (''Low'', [Num 9, Num 10]), (''Close'', [Num 11, Num 12])]\<rparr>"

definition ohlcv2 :: dataframe where
  "ohlcv2 = \<lparr>index = [1, 2],
     columns = [(''Open'', [Num 10, Num 11]), (''High'', [Num 12, Num 13]),
                (''Low'', [Num 9, Num 10]), (''Close'', [Num 11, Num 12]),
                (''Volume'', [Num 100, Num 0])]\<rparr>"

subsection \<open>Invariants of statements\<close>

text \<open>
  A statement keeps a property of the builder when the property holds after the
  statement, raised or not, whenever it held before.
\<close>

definition keeps :: "(builder \<Rightarrow> bool) \<Rightarrow> stmt \<Rightarrow> bool" where
  "keeps P s = (\<forall>b. P b \<longrightarrow> P (snd (s b)))"

text \<open>The table of the builder has the index \<open>ix\<close> and one cell per row in each column.\<close>

definition shaped :: "timestamp list \<Rightarrow> builder \<Rightarrow> bool" where
  "shaped ix b = (index (df b) = ix \<and> wf_df (df b))"

subsection \<open>The mean in the words of the spec\<close>

text \<open>
  The spec gives a moving average at a row as the mean of the cells of the window: their
  sum divided by how many they are. This definition follows those words and not the
  code; the rolling mean above is compared with it.
\<close>

definition arithmetic_mean :: "series \<Rightarrow> cell" where
  "arithmetic_mean xs = cell_div (cell_sum xs) (Num (real (length xs)))"

subsection \<open>Longer sample inputs\<close>

text \<open>
  Fifty days, so that the windows of 20 and of 50 rows are full at the last row: the
  close rises by one a day, the volume by a hundred.
\<close>

definition rising50 :: series where
  "rising50 = map (\<lambda>k. Num (real k)) [1..<51]"

definition volume50 :: series where
  "volume50 = map (\<lambda>k. Num (real (100 * k))) [1..<51]"

definition days50 :: dataframe where
  "days50 = \<lparr>index = [1..50],
     columns = [(''Open'', rising50), (''High'', map (\<lambda>k. Num (real k)) [2..<52]),
                (''Low'', map (\<lambda>k. Num (real k)) [0..<50]), (''Close'', rising50),
                (''Volume'', volume50)]\<rparr>"

text \<open>Two days of prices where the first close is missing.\<close>

definition gap2 :: dataframe where
  "gap2 = \<lparr>index = [1, 2],
     columns = [(''Open'', [Num 10, Num 11]), (''High'', [Num 12, Num 13]),
                (''Low'', [Num 9, Num 10]), (''Close'', [NaN, Num 12])]\<rparr>"

subsection \<open>The columns of the passes\<close>

text \<open>
  The columns the constructor expects in the table it is given (its docstring), and
  the columns each pass assigns, in the order of its assignments.
\<close>

definition input_columns :: "string list" where
  "input_columns = [''Open'', ''High'', ''Low'', ''Close'', ''Volume'']"

definition pass_columns :: "pass \<Rightarrow> string list" where
  "pass_columns p = (case p of
     MovingAverages \<Rightarrow>
       [''SMA_5'', ''SMA_10'', ''SMA_20'', ''SMA_50'', ''SMA_100'', ''SMA_200'',
        ''EMA_9'', ''EMA_12'', ''EMA_21'', ''EMA_26'', ''EMA_50'',
        ''SMA_Cross_20_50'', ''EMA_Cross_12_26'']
   | Momentum \<Rightarrow>
       [''RSI_14'', ''RSI_21'', ''Stoch_K'', ''Stoch_D'', ''MACD'', ''MACD_Signal'',
        ''MACD_Diff'', ''ROC_10'', ''ROC_20'']
   | Volatility \<Rightarrow>
       [''ATR_14'', ''ATR_20'', ''BB_High'', ''BB_Mid'', ''BB_Low'', ''BB_Width'', ''BB_Pct'',
        ''Volatility_10'', ''Volatility_20'', ''Volatility_30'']
   | Volume \<Rightarrow> [''OBV'', ''Volume_SMA_10'', ''Volume_SMA_20'', ''Volume_Ratio''])"

text \<open>
  Two notions for the statements. A column \<open>c\<close> has the contents \<open>v\<close> (\<open>None\<close> when
  the table has no such column). Two builders agree on a set of columns when each of
  these columns has the same contents in both; a statement reads within the set when,
  run on two builders that agree on it, it raises in both or in neither, with the
  same error, and leaves two builders that agree on it.
\<close>

definition column_is :: "string \<Rightarrow> series option \<Rightarrow> builder \<Rightarrow> bool" where
  "column_is c v b = (map_of (columns (df b)) c = v)"

definition agree :: "string set \<Rightarrow> builder \<Rightarrow> builder \<Rightarrow> bool" where
  "agree C b1 b2 = (\<forall>c \<in> C. map_of (columns (df b1)) c = map_of (columns (df b2)) c)"

definition reads_within :: "string set \<Rightarrow> stmt \<Rightarrow> bool" where
  "reads_within C s =
     (\<forall>b1 b2. agree C b1 b2 \<longrightarrow> fst (s b1) = fst (s b2) \<and> agree C (snd (s b1)) (snd (s b2)))"

section \<open>Properties\<close>

subsection \<open>Tables and names\<close>

lemma map_of_put_column:
  "map_of (put_column n s cs) m = (if m = n then Some s else map_of cs m)"
  by (induction cs) auto

lemma names_put_column:
  "set (map fst (put_column n s cs)) = insert n (set (map fst cs))"
proof (induction cs)
  case Nil
  show ?case by simp
next
  case (Cons c cs)
  obtain k t where c: "c = (k, t)" by (cases c)
  show ?case
  proof (cases "k = n")
    case True
    then show ?thesis by (simp add: c)
  next
    case False
    then show ?thesis using Cons.IH by (simp add: c insert_commute)
  qed
qed

lemma str_nat_names:
  "str_nat 5 = ''5''" "str_nat 10 = ''10''" "str_nat 20 = ''20''" "str_nat 50 = ''50''"
  "str_nat 100 = ''100''" "str_nat 200 = ''200''" "str_nat 9 = ''9''" "str_nat 12 = ''12''"
  "str_nat 21 = ''21''" "str_nat 26 = ''26''" "str_nat 14 = ''14''" "str_nat 30 = ''30''"
  by (simp_all add: str_nat.simps digit_char_def)

subsection \<open>The volume pass without a volume column\<close>

text \<open>
  C6. When the table has no column \<open>Volume\<close>, \<open>add_volume_indicators\<close> raises nothing
  and leaves the builder as it was: the table keeps exactly its columns, so none of
  \<open>OBV\<close>, \<open>Volume_SMA_10\<close>, \<open>Volume_SMA_20\<close>, \<open>Volume_Ratio\<close> is added, and the registry
  is unchanged.
\<close>

theorem volume_pass_skipped_without_volume:
  assumes "''Volume'' \<notin> set (column_names (df b))"
  shows "add_volume_indicators L b = (None, b)"
  using assms by (simp add: add_volume_indicators_def)

theorem volume_pass_skipped_without_volume_witness:
  "''Volume'' \<notin> set (column_names (df (GoldFeatureEngineering prices2)))
   \<and> add_volume_indicators echo_lib (GoldFeatureEngineering prices2)
       = (None, GoldFeatureEngineering prices2)
   \<and> column_names (df (snd (add_volume_indicators echo_lib (GoldFeatureEngineering prices2))))
       = [''Open'', ''High'', ''Low'', ''Close'']"
proof -
  have h: "''Volume'' \<notin> set (column_names (df (GoldFeatureEngineering prices2)))"
    by (simp add: column_names_def GoldFeatureEngineering_def prices2_def)
  show ?thesis
    using h volume_pass_skipped_without_volume [OF h, of echo_lib]
    by (simp add: column_names_def GoldFeatureEngineering_def prices2_def)
qed

subsection \<open>Row count and index\<close>

lemma keeps_block: "(\<And>s. s \<in> set ss \<Longrightarrow> keeps P s) \<Longrightarrow> keeps P (block ss)"
proof (induction ss)
  case Nil
  show ?case by (simp add: keeps_def)
next
  case (Cons s ss)
  have s: "keeps P s" and ss: "keeps P (block ss)"
    using Cons by simp_all
  show ?case
    unfolding keeps_def
  proof (intro allI impI)
    fix b assume "P b"
    then have 1: "P (snd (s b))" using s by (simp add: keeps_def)
    show "P (snd (block (s # ss) b))"
    proof (cases "s b")
      case (Pair e b')
      then show ?thesis using 1 ss by (cases e) (simp_all add: keeps_def)
    qed
  qed
qed

lemma keeps_for_in: "(\<And>x. x \<in> set xs \<Longrightarrow> keeps P (body x)) \<Longrightarrow> keeps P (for_in xs body)"
  unfolding for_in_def by (rule keeps_block) auto

lemma wf_df_setitem:
  "wf_df d \<Longrightarrow> length s = nrows d \<Longrightarrow> wf_df (df_setitem d name s)"
proof -
  have "list_all (\<lambda>(n, t). length t = k) cs \<Longrightarrow> length s = k
        \<Longrightarrow> list_all (\<lambda>(n, t). length t = k) (put_column name s cs)" for k cs
    by (induction cs) auto
  then show "wf_df d \<Longrightarrow> length s = nrows d \<Longrightarrow> wf_df (df_setitem d name s)"
    by (simp add: wf_df_def df_setitem_def nrows_def)
qed

lemma wf_df_getitem:
  "wf_df d \<Longrightarrow> df_getitem d name = Inr s \<Longrightarrow> length s = nrows d"
proof -
  have "list_all (\<lambda>(n, t). length t = k) cs \<Longrightarrow> map_of cs name = Some s \<Longrightarrow> length s = k" for k cs
    by (induction cs) (auto split: if_splits)
  then show "wf_df d \<Longrightarrow> df_getitem d name = Inr s \<Longrightarrow> length s = nrows d"
    by (auto simp: wf_df_def df_getitem_def split: option.splits)
qed

lemma keeps_read_shaped:
  "(\<And>s. length s = length ix \<Longrightarrow> keeps (shaped ix) (k s)) \<Longrightarrow> keeps (shaped ix) (read name k)"
proof -
  assume body: "\<And>s. length s = length ix \<Longrightarrow> keeps (shaped ix) (k s)"
  show "keeps (shaped ix) (read name k)"
    unfolding keeps_def
  proof (intro allI impI)
    fix b assume b: "shaped ix b"
    show "shaped ix (snd (read name k b))"
    proof (cases "df_getitem (df b) name")
      case (Inl e)
      then show ?thesis using b by (simp add: read_def)
    next
      case (Inr s)
      have "length s = length ix"
        using b Inr wf_df_getitem [of "df b" name s] by (simp add: shaped_def nrows_def)
      then have "keeps (shaped ix) (k s)" by (rule body)
      then show ?thesis using b Inr by (simp add: read_def keeps_def)
    qed
  qed
qed

lemma keeps_assign_shaped:
  "length s = length ix \<Longrightarrow> keeps (shaped ix) (assign name s)"
  unfolding keeps_def assign_def shaped_def
  by (auto simp: nrows_def intro: wf_df_setitem) (simp add: df_setitem_def)

lemma keeps_append_shaped: "keeps (shaped ix) (append_feature name)"
  by (simp add: keeps_def append_feature_def shaped_def)

lemma keeps_extend_shaped: "keeps (shaped ix) (extend_features names)"
  by (simp add: keeps_def extend_features_def shaped_def)

lemmas keeps_shaped = keeps_block keeps_for_in keeps_read_shaped keeps_assign_shaped
  keeps_append_shaped keeps_extend_shaped

lemma series_lengths [simp]:
  "length (series_sub a b) = min (length a) (length b)"
  "length (series_div a b) = min (length a) (length b)"
  "length (series_gt a b) = min (length a) (length b)"
  "length (series_mul_scalar a k) = length a"
  "length (np_where c x y) = length c"
  "length (shift n a) = length a"
  "length (rolling_mean w a) = length a"
  "length (on_index a f) = length a"
  "length (sma_indicator w a) = length a"
  "length (macd L sl fa sg a) = length a"
  "length (macd_signal L sl fa sg a) = length a"
  "length (macd_diff L sl fa sg a) = length a"
  by (simp_all add: series_sub_def series_div_def series_gt_def series_mul_scalar_def
      np_where_def shift_def rolling_mean_def on_index_def sma_indicator_def macd_def
      macd_signal_def macd_diff_def)

lemma ma_shaped: "keeps (shaped ix) (add_moving_averages L)"
  unfolding add_moving_averages_def
  by (intro keeps_shaped) (auto intro!: keeps_shaped)

lemma mom_shaped: "keeps (shaped ix) (add_momentum_indicators L)"
  unfolding add_momentum_indicators_def
  by (intro keeps_shaped) (auto intro!: keeps_shaped)

lemma vola_shaped: "keeps (shaped ix) (add_volatility_indicators L)"
  unfolding add_volatility_indicators_def
  by (intro keeps_shaped) (auto intro!: keeps_shaped)

lemma vol_shaped: "keeps (shaped ix) (add_volume_indicators L)"
proof -
  have "keeps (shaped ix) (block [
        read ''Close'' (\<lambda>close. read ''Volume'' (\<lambda>volume. block [
          assign ''OBV'' (on_index close (on_balance_volume L close volume)),
          append_feature ''OBV''])),
        for_in [10, 20] (\<lambda>period.
          read ''Volume'' (\<lambda>volume. block [
            assign (''Volume_SMA_'' @ str_nat period) (rolling_mean period volume),
            append_feature (''Volume_SMA_'' @ str_nat period)])),
        read ''Volume'' (\<lambda>volume. read ''Volume_SMA_20'' (\<lambda>vsma. block [
          assign ''Volume_Ratio'' (series_div volume vsma),
          append_feature ''Volume_Ratio'']))])"
    by (intro keeps_shaped) (auto intro!: keeps_shaped)
  then show ?thesis
    by (simp add: keeps_def add_volume_indicators_def)
qed

lemma run_pass_shaped: "keeps (shaped ix) (run_pass L p)"
  by (cases p) (simp_all add: ma_shaped mom_shaped vola_shaped vol_shaped)

lemma run_passes_shaped: "keeps (shaped ix) (run_passes L ps)"
  unfolding run_passes_def by (rule keeps_block) (auto simp: run_pass_shaped)

text \<open>
  C1. Whatever passes are called on a builder made from a table, and whether or not one
  of them raises, the table of the builder keeps the time index and the row count of
  the input, and every column in it, the appended ones included, has one cell per row.
\<close>

theorem passes_keep_rows_and_index:
  assumes "wf_df d"
  shows "index (df (snd (run_passes L ps (GoldFeatureEngineering d)))) = index d
       \<and> nrows (df (snd (run_passes L ps (GoldFeatureEngineering d)))) = nrows d
       \<and> wf_df (df (snd (run_passes L ps (GoldFeatureEngineering d))))"
proof -
  have "shaped (index d) (GoldFeatureEngineering d)"
    using assms by (simp add: shaped_def GoldFeatureEngineering_def)
  then have "shaped (index d) (snd (run_passes L ps (GoldFeatureEngineering d)))"
    using run_passes_shaped [of "index d" L ps] by (simp add: keeps_def)
  then show ?thesis by (simp add: shaped_def nrows_def)
qed

theorem passes_keep_rows_and_index_witness:
  "wf_df ohlcv2
   \<and> index (df (snd (run_passes echo_lib [MovingAverages, Volume, Momentum, Volatility]
        (GoldFeatureEngineering ohlcv2)))) = [1, 2]
   \<and> nrows (df (snd (run_passes echo_lib [MovingAverages, Volume, Momentum, Volatility]
        (GoldFeatureEngineering ohlcv2)))) = 2
   \<and> wf_df (df (snd (run_passes echo_lib [MovingAverages, Volume, Momentum, Volatility]
        (GoldFeatureEngineering ohlcv2))))"
proof -
  have h: "wf_df ohlcv2"
    by (simp add: wf_df_def ohlcv2_def nrows_def)
  show ?thesis
    using h passes_keep_rows_and_index
      [OF h, of echo_lib "[MovingAverages, Volume, Momentum, Volatility]"]
    by (simp add: ohlcv2_def nrows_def)
qed

subsection \<open>The caller's table\<close>

text \<open>
  A call writes only at the reference \<open>self.df\<close> of the builder, never moves that
  reference and allocates nothing. On the table at that reference a sequence of calls
  does what \<open>run_passes\<close> does on the value.
\<close>

lemma call_pass_frame:
  assumes "call_pass L p (h, obj) = (e, h', obj')"
  shows "self_df obj' = self_df obj" and "length h' = length h"
    and "r \<noteq> self_df obj \<Longrightarrow> h' ! r = h ! r"
  using assms by (auto simp: call_pass_def split: prod.splits)

lemma call_passes_frame:
  assumes "call_passes L ps (h, obj) = (e, h', obj')"
  shows "self_df obj' = self_df obj \<and> length h' = length h
       \<and> (\<forall>r. r \<noteq> self_df obj \<longrightarrow> h' ! r = h ! r)"
  using assms
proof (induction ps arbitrary: h obj)
  case Nil
  then show ?case by simp
next
  case (Cons p ps)
  obtain e1 h1 obj1 where step: "call_pass L p (h, obj) = (e1, h1, obj1)"
    by (cases "call_pass L p (h, obj)") auto
  have fr: "self_df obj1 = self_df obj" "length h1 = length h"
    "\<And>r. r \<noteq> self_df obj \<Longrightarrow> h1 ! r = h ! r"
    using call_pass_frame [OF step] by simp_all
  show ?case
  proof (cases e1)
    case None
    then have "call_passes L ps (h1, obj1) = (e, h', obj')"
      using Cons.prems step by simp
    then have "self_df obj' = self_df obj1 \<and> length h' = length h1
       \<and> (\<forall>r. r \<noteq> self_df obj1 \<longrightarrow> h' ! r = h1 ! r)"
      by (rule Cons.IH)
    then show ?thesis using fr by simp
  next
    case (Some err)
    then have "h' = h1" "obj' = obj1"
      using Cons.prems step by simp_all
    then show ?thesis using fr by simp
  qed
qed

lemma call_passes_run:
  assumes "self_df obj < length h"
  shows "call_passes L ps (h, obj) =
     (case run_passes L ps \<lparr>df = h ! self_df obj, features_created = self_features_created obj\<rparr> of
        (e, b') \<Rightarrow> (e, h[self_df obj := df b'],
                   obj\<lparr>self_features_created := features_created b'\<rparr>))"
  using assms
proof (induction ps arbitrary: h obj)
  case Nil
  then show ?case by (simp add: run_passes_def)
next
  case (Cons p ps)
  obtain e1 b1 where step:
    "run_pass L p \<lparr>df = h ! self_df obj, features_created = self_features_created obj\<rparr> = (e1, b1)"
    by (cases "run_pass L p \<lparr>df = h ! self_df obj, features_created = self_features_created obj\<rparr>")
  have b1: "\<lparr>df = df b1, features_created = features_created b1\<rparr> = b1"
    by simp
  show ?case
  proof (cases e1)
    case None
    have "call_passes L (p # ps) (h, obj)
          = call_passes L ps (h[self_df obj := df b1],
                              obj\<lparr>self_features_created := features_created b1\<rparr>)"
      using step None by (simp add: call_pass_def)
    also have "\<dots> = (case run_passes L ps b1 of
        (e, b') \<Rightarrow> (e, h[self_df obj := df b'],
                   obj\<lparr>self_features_created := features_created b'\<rparr>))"
      using Cons.prems
        Cons.IH [of "obj\<lparr>self_features_created := features_created b1\<rparr>" "h[self_df obj := df b1]"]
      by (simp add: b1 split: prod.splits)
    finally show ?thesis using step None by (simp add: run_passes_def)
  next
    case (Some err)
    then show ?thesis using step by (simp add: call_pass_def run_passes_def)
  qed
qed

lemma init_copy:
  "init h r = (h @ [h ! r], \<lparr>self_df = length h, self_features_created = []\<rparr>)"
  by (simp add: init_def df_copy_def)

lemma ohlcv2_run:
  "fst (run_passes echo_lib [MovingAverages, Volume] (GoldFeatureEngineering ohlcv2)) = None"
  "''SMA_5'' \<in> set (column_names
     (df (snd (run_passes echo_lib [MovingAverages, Volume] (GoldFeatureEngineering ohlcv2)))))"
  "''SMA_5'' \<notin> set (column_names ohlcv2)"
  by (simp_all add: run_passes_def add_moving_averages_def add_volume_indicators_def
      for_in_def read_def assign_def append_feature_def df_getitem_def df_setitem_def
      map_of_put_column str_nat_names column_names_def GoldFeatureEngineering_def ohlcv2_def)

text \<open>
  C2. The constructor copies the table it is given: the builder's reference is a new
  one, the table there has the contents of the caller's table, the tables that existed
  before are as they were, and the registry is empty. Whatever passes are then called
  on the builder, and whether or not one of them raises, the table the caller holds
  (its index, its columns and their cells) and every other table that existed before
  stay as they were; the builder still holds the reference the constructor gave it,
  and the table there and the registry are what the passes compute from the contents
  of the caller's table.
\<close>

theorem caller_table_unchanged:
  assumes "r < length h"
  shows "length h \<le> self_df (snd (init h r))
       \<and> fst (init h r) ! self_df (snd (init h r)) = h ! r
       \<and> take (length h) (fst (init h r)) = h
       \<and> self_features_created (snd (init h r)) = []
       \<and> fst (snd (call_passes L ps (init h r))) ! r = h ! r
       \<and> take (length h) (fst (snd (call_passes L ps (init h r)))) = h
       \<and> self_df (snd (snd (call_passes L ps (init h r)))) = self_df (snd (init h r))
       \<and> fst (call_passes L ps (init h r)) = fst (run_passes L ps (GoldFeatureEngineering (h ! r)))
       \<and> fst (snd (call_passes L ps (init h r))) ! self_df (snd (init h r))
           = df (snd (run_passes L ps (GoldFeatureEngineering (h ! r))))
       \<and> self_features_created (snd (snd (call_passes L ps (init h r))))
           = features_created (snd (run_passes L ps (GoldFeatureEngineering (h ! r))))"
proof -
  obtain e h' obj' where run: "call_passes L ps (init h r) = (e, h', obj')"
    by (cases "call_passes L ps (init h r)") auto
  then have run': "call_passes L ps (h @ [h ! r], \<lparr>self_df = length h, self_features_created = []\<rparr>)
      = (e, h', obj')"
    by (simp add: init_copy)
  have fr: "self_df obj' = length h" "length h' = Suc (length h)"
    "\<And>k. k \<noteq> length h \<Longrightarrow> h' ! k = (h @ [h ! r]) ! k"
    using call_passes_frame [OF run'] by simp_all
  have old: "take (length h) h' = h"
    using fr by (intro nth_equalityI) (simp_all add: nth_append)
  have same: "h' ! r = h ! r"
    using fr(3) [of r] assms by (simp add: nth_append)
  obtain e2 b2 where val: "run_passes L ps (GoldFeatureEngineering (h ! r)) = (e2, b2)"
    by (cases "run_passes L ps (GoldFeatureEngineering (h ! r))")
  have "call_passes L ps (h @ [h ! r], \<lparr>self_df = length h, self_features_created = []\<rparr>)
      = (e2, (h @ [h ! r])[length h := df b2],
         \<lparr>self_df = length h, self_features_created = features_created b2\<rparr>)"
    using call_passes_run [of "\<lparr>self_df = length h, self_features_created = []\<rparr>" "h @ [h ! r]" L ps]
      val by (simp add: GoldFeatureEngineering_def)
  then have link: "e = e2" "h' ! length h = df b2" "self_features_created obj' = features_created b2"
    using run' by auto
  show ?thesis
    using run val fr(1) old same link by (simp add: init_copy)
qed

theorem caller_table_unchanged_witness:
  "(0::nat) < length [ohlcv2]
   \<and> self_df (snd (init [ohlcv2] 0)) = 1
   \<and> fst (init [ohlcv2] 0) = [ohlcv2, ohlcv2]
   \<and> fst (call_passes echo_lib [MovingAverages, Volume] (init [ohlcv2] 0)) = None
   \<and> fst (snd (call_passes echo_lib [MovingAverages, Volume] (init [ohlcv2] 0))) ! 0 = ohlcv2
   \<and> fst (snd (call_passes echo_lib [MovingAverages, Volume] (init [ohlcv2] 0))) ! 1
       = df (snd (run_passes echo_lib [MovingAverages, Volume] (GoldFeatureEngineering ohlcv2)))
   \<and> ''SMA_5'' \<in> set (column_names
        (fst (snd (call_passes echo_lib [MovingAverages, Volume] (init [ohlcv2] 0))) ! 1))
   \<and> ''SMA_5'' \<notin> set (column_names
        (fst (snd (call_passes echo_lib [MovingAverages, Volume] (init [ohlcv2] 0))) ! 0))"
proof -
  have h: "(0::nat) < length [ohlcv2]" by simp
  have i: "self_df (snd (init [ohlcv2] 0)) = 1" "fst (init [ohlcv2] 0) = [ohlcv2, ohlcv2]"
    by (simp_all add: init_copy)
  show ?thesis
    using h caller_table_unchanged [OF h, of echo_lib "[MovingAverages, Volume]"]
    by (simp add: i ohlcv2_run)
qed

subsection \<open>The registry\<close>

text \<open>
  C9. Every pass appends to \<open>features_created\<close> the name of every column it adds.
  This fails for \<open>add_moving_averages\<close>: on a table with a column \<open>Close\<close> the pass
  writes the columns \<open>SMA_Cross_20_50\<close> and \<open>EMA_Cross_12_26\<close> (lines 44 and 45) and
  appends neither name to the registry.
\<close>

theorem cross_columns_not_registered:
  "''SMA_Cross_20_50'' \<in> set (column_names (df (snd (add_moving_averages echo_lib (GoldFeatureEngineering prices2)))))
   \<and> ''SMA_Cross_20_50'' \<notin> set (features_created (snd (add_moving_averages echo_lib (GoldFeatureEngineering prices2))))
   \<and> ''EMA_Cross_12_26'' \<in> set (column_names (df (snd (add_moving_averages echo_lib (GoldFeatureEngineering prices2)))))
   \<and> ''EMA_Cross_12_26'' \<notin> set (features_created (snd (add_moving_averages echo_lib (GoldFeatureEngineering prices2))))"
  by (simp add: add_moving_averages_def for_in_def read_def assign_def append_feature_def
      df_getitem_def df_setitem_def map_of_put_column str_nat_names column_names_def
      GoldFeatureEngineering_def prices2_def)

subsection \<open>Rolling means\<close>

text \<open>
  A \<open>NaN\<close> cell makes a sum \<open>NaN\<close>. The rolling mean is \<open>NaN\<close> while the window is not
  full, and is the mean of the rows of the window from then on (which is \<open>NaN\<close> when
  one of them is).
\<close>

lemma foldl_cell_add_NaN: "foldl cell_add NaN xs = NaN"
  by (induction xs) simp_all

lemma cell_add_NaN_right: "cell_add a NaN = NaN"
  by (cases a) simp_all

lemma cell_sum_NaN: "NaN \<in> set xs \<Longrightarrow> cell_sum xs = NaN"
proof -
  have "NaN \<in> set xs \<Longrightarrow> foldl cell_add a xs = NaN" for a
    by (induction xs arbitrary: a) (auto simp: foldl_cell_add_NaN cell_add_NaN_right)
  then show "NaN \<in> set xs \<Longrightarrow> cell_sum xs = NaN"
    by (simp add: cell_sum_def)
qed

lemma observations_id: "NaN \<notin> set xs \<Longrightarrow> observations xs = xs"
  by (induction xs) (auto simp: observations_def)

lemma window_at_rows:
  assumes "i < length s" and "w \<le> Suc i"
  shows "window_at w s i = map ((!) s) [Suc i - w..<Suc i]"
  using assms unfolding window_at_def
  by (intro nth_equalityI) (simp_all del: upt_Suc)

lemma rolling_mean_short:
  assumes "i < length s" and "Suc i < w"
  shows "rolling_mean w s ! i = NaN"
proof -
  have "length (observations (window_at w s i)) \<le> length (window_at w s i)"
    by (simp add: observations_def)
  also have "\<dots> < w" using assms by (simp add: window_at_def)
  finally show ?thesis using assms by (simp add: rolling_mean_def Let_def)
qed

lemma rolling_mean_full:
  assumes "i < length s" and "w \<le> Suc i"
  shows "rolling_mean w s ! i = arithmetic_mean (map ((!) s) [Suc i - w..<Suc i])"
proof -
  let ?win = "map ((!) s) [Suc i - w..<Suc i]"
  have win: "window_at w s i = ?win" using assms by (rule window_at_rows)
  have len: "length ?win = w" using assms by (simp del: upt_Suc)
  show ?thesis
  proof (cases "NaN \<in> set ?win")
    case True
    then have "length (observations ?win) < w"
      using len length_filter_less [of NaN ?win "\<lambda>c. c \<noteq> NaN"]
      by (simp add: observations_def)
    moreover have "arithmetic_mean ?win = NaN"
      using True by (simp add: arithmetic_mean_def cell_sum_NaN)
    ultimately show ?thesis
      using assms win by (simp add: rolling_mean_def Let_def)
  next
    case False
    then have "observations ?win = ?win"
      by (rule observations_id)
    then show ?thesis
      using assms win len by (simp add: rolling_mean_def Let_def arithmetic_mean_def)
  qed
qed

lemma cell_gt_NaN_right: "\<not> cell_gt a NaN"
  by (cases a) simp_all

lemma cell_div_NaN_right: "cell_div a NaN = NaN"
  by (cases a) simp_all

lemma np_where_gt_nth:
  "i < length a \<Longrightarrow> i < length b
   \<Longrightarrow> np_where (series_gt a b) x y ! i = (if cell_gt (a ! i) (b ! i) then x else y)"
  by (simp add: np_where_def series_gt_def)

subsection \<open>The columns a pass leaves\<close>

text \<open>
  What a pass that completes has written, column by column, and which read raises when
  an input column is absent.
\<close>

lemma getitem_iff:
  "df_getitem d name = Inr s \<longleftrightarrow> map_of (columns d) name = Some s"
  by (simp add: df_getitem_def split: option.splits)

lemma has_column:
  "name \<in> set (column_names d) \<longleftrightarrow> (\<exists>s. map_of (columns d) name = Some s)"
  using map_of_eq_None_iff [of "columns d" name] by (auto simp: column_names_def)

lemmas unroll = for_in_def read_def assign_def append_feature_def extend_features_def
  df_getitem_def df_setitem_def map_of_put_column str_nat_names

lemma ma_result:
  assumes "map_of (columns (df b)) ''Close'' = Some close"
  shows "fst (add_moving_averages L b) = None"
    and "map_of (columns (df (snd (add_moving_averages L b)))) ''Close'' = Some close"
    and "map_of (columns (df (snd (add_moving_averages L b)))) ''SMA_20''
           = Some (sma_indicator 20 close)"
    and "map_of (columns (df (snd (add_moving_averages L b)))) ''SMA_50''
           = Some (sma_indicator 50 close)"
    and "map_of (columns (df (snd (add_moving_averages L b)))) ''EMA_12''
           = Some (on_index close (ema_indicator L 12 close))"
    and "map_of (columns (df (snd (add_moving_averages L b)))) ''EMA_26''
           = Some (on_index close (ema_indicator L 26 close))"
    and "map_of (columns (df (snd (add_moving_averages L b)))) ''SMA_Cross_20_50''
           = Some (np_where (series_gt (sma_indicator 20 close) (sma_indicator 50 close))
                     (Num 1) (Num 0))"
    and "map_of (columns (df (snd (add_moving_averages L b)))) ''EMA_Cross_12_26''
           = Some (np_where (series_gt (on_index close (ema_indicator L 12 close))
                                       (on_index close (ema_indicator L 26 close)))
                     (Num 1) (Num 0))"
  using assms by (simp_all add: add_moving_averages_def unroll)

lemma ma_raises:
  assumes "map_of (columns (df b)) ''Close'' = None"
  shows "fst (add_moving_averages L b) = Some (KeyError ''Close'')"
  using assms by (simp add: add_moving_averages_def unroll)

lemma mom_result:
  assumes "map_of (columns (df b)) ''Close'' = Some close"
    and "map_of (columns (df b)) ''High'' = Some high"
    and "map_of (columns (df b)) ''Low'' = Some low"
  shows "fst (add_momentum_indicators L b) = None"
    and "map_of (columns (df (snd (add_momentum_indicators L b)))) ''MACD''
           = Some (macd L 26 12 9 close)"
    and "map_of (columns (df (snd (add_momentum_indicators L b)))) ''MACD_Signal''
           = Some (macd_signal L 26 12 9 close)"
    and "map_of (columns (df (snd (add_momentum_indicators L b)))) ''MACD_Diff''
           = Some (macd_diff L 26 12 9 close)"
  using assms by (simp_all add: add_momentum_indicators_def unroll)

lemma mom_raises:
  "map_of (columns (df b)) ''Close'' = None
   \<Longrightarrow> fst (add_momentum_indicators L b) = Some (KeyError ''Close'')"
  "map_of (columns (df b)) ''Close'' = Some close \<Longrightarrow> map_of (columns (df b)) ''High'' = None
   \<Longrightarrow> fst (add_momentum_indicators L b) = Some (KeyError ''High'')"
  "map_of (columns (df b)) ''Close'' = Some close \<Longrightarrow> map_of (columns (df b)) ''High'' = Some high
   \<Longrightarrow> map_of (columns (df b)) ''Low'' = None
   \<Longrightarrow> fst (add_momentum_indicators L b) = Some (KeyError ''Low'')"
  by (simp_all add: add_momentum_indicators_def unroll)

lemma mom_completes:
  assumes "fst (add_momentum_indicators L b) = None"
  obtains close high low where "map_of (columns (df b)) ''Close'' = Some close"
    and "map_of (columns (df b)) ''High'' = Some high"
    and "map_of (columns (df b)) ''Low'' = Some low"
proof (cases "map_of (columns (df b)) ''Close''")
  case None
  then show ?thesis using assms mom_raises(1) [of b L] by simp
next
  case c: (Some close)
  show ?thesis
  proof (cases "map_of (columns (df b)) ''High''")
    case None
    then show ?thesis using assms mom_raises(2) [OF c, of L] by simp
  next
    case h: (Some high)
    show ?thesis
    proof (cases "map_of (columns (df b)) ''Low''")
      case None
      then show ?thesis using assms mom_raises(3) [OF c h, of L] by simp
    next
      case (Some low)
      then show ?thesis using c h that by blast
    qed
  qed
qed

lemma vol_result:
  assumes "map_of (columns (df b)) ''Close'' = Some close"
    and "map_of (columns (df b)) ''Volume'' = Some volume"
  shows "fst (add_volume_indicators L b) = None"
    and "map_of (columns (df (snd (add_volume_indicators L b)))) ''Volume'' = Some volume"
    and "map_of (columns (df (snd (add_volume_indicators L b)))) ''Volume_SMA_20''
           = Some (rolling_mean 20 volume)"
    and "map_of (columns (df (snd (add_volume_indicators L b)))) ''Volume_Ratio''
           = Some (series_div volume (rolling_mean 20 volume))"
proof -
  have v: "''Volume'' \<in> set (column_names (df b))"
    using assms(2) by (simp add: has_column)
  show "fst (add_volume_indicators L b) = None"
    and "map_of (columns (df (snd (add_volume_indicators L b)))) ''Volume'' = Some volume"
    and "map_of (columns (df (snd (add_volume_indicators L b)))) ''Volume_SMA_20''
           = Some (rolling_mean 20 volume)"
    and "map_of (columns (df (snd (add_volume_indicators L b)))) ''Volume_Ratio''
           = Some (series_div volume (rolling_mean 20 volume))"
    using assms v by (simp_all add: add_volume_indicators_def unroll)
qed

lemma vol_raises:
  assumes "map_of (columns (df b)) ''Close'' = None"
    and "''Volume'' \<in> set (column_names (df b))"
  shows "fst (add_volume_indicators L b) = Some (KeyError ''Close'')"
  using assms by (simp add: add_volume_indicators_def unroll)

subsection \<open>Values on the sample inputs\<close>

lemma days50_columns:
  "map_of (columns (df (GoldFeatureEngineering days50))) ''Close'' = Some rising50"
  "map_of (columns (df (GoldFeatureEngineering days50))) ''Volume'' = Some volume50"
  by (simp_all add: GoldFeatureEngineering_def days50_def)

lemma gap2_close:
  "map_of (columns (df (GoldFeatureEngineering gap2))) ''Close'' = Some [NaN, Num 12]"
  by (simp add: GoldFeatureEngineering_def gap2_def)

lemma ohlcv2_columns:
  "map_of (columns (df (GoldFeatureEngineering ohlcv2))) ''Close'' = Some [Num 11, Num 12]"
  "map_of (columns (df (GoldFeatureEngineering ohlcv2))) ''High'' = Some [Num 12, Num 13]"
  "map_of (columns (df (GoldFeatureEngineering ohlcv2))) ''Low'' = Some [Num 9, Num 10]"
  "map_of (columns (df (GoldFeatureEngineering ohlcv2))) ''Volume'' = Some [Num 100, Num 0]"
  by (simp_all add: GoldFeatureEngineering_def ohlcv2_def)

lemma rising50_means:
  "length rising50 = 50"
  "arithmetic_mean (map ((!) rising50) [0..<20]) = Num (21 / 2)"
  "arithmetic_mean (map ((!) rising50) [30..<50]) = Num (81 / 2)"
  "arithmetic_mean (map ((!) rising50) [0..<50]) = Num (51 / 2)"
  by code_simp+


lemma volume50_values:
  "length volume50 = 50"
  "volume50 ! 19 = Num 2000"
  "arithmetic_mean (map ((!) volume50) [0..<20]) = Num 1050"
  by (simp_all add: volume50_def arithmetic_mean_def cell_sum_def upt_conv_Cons)

subsection \<open>The simple moving average\<close>

text \<open>
  C3. After \<open>add_moving_averages\<close> has completed, the column \<open>Close\<close> is the one of the
  input, and the column \<open>SMA_20\<close> has a cell for each of its rows: \<open>NaN\<close> at every row
  \<open>i < 19\<close>, and at every row \<open>i \<ge> 19\<close> the arithmetic mean of \<open>Close\<close> over the rows
  \<open>i - 19\<close> to \<open>i\<close>.
\<close>

theorem sma_20_is_mean_of_close:
  assumes "fst (add_moving_averages L b) = None"
  shows "\<exists>close sma.
           df_getitem (df b) ''Close'' = Inr close
         \<and> df_getitem (df (snd (add_moving_averages L b))) ''Close'' = Inr close
         \<and> df_getitem (df (snd (add_moving_averages L b))) ''SMA_20'' = Inr sma
         \<and> length sma = length close
         \<and> (\<forall>i < length close.
               (i < 19 \<longrightarrow> sma ! i = NaN)
             \<and> (19 \<le> i \<longrightarrow> sma ! i = arithmetic_mean (map ((!) close) [i - 19..<Suc i])))"
proof (cases "map_of (columns (df b)) ''Close''")
  case None
  then show ?thesis using assms ma_raises [of b L] by simp
next
  case (Some close)
  have rows: "(i < 19 \<longrightarrow> sma_indicator 20 close ! i = NaN)
      \<and> (19 \<le> i \<longrightarrow> sma_indicator 20 close ! i
             = arithmetic_mean (map ((!) close) [i - 19..<Suc i]))"
    if "i < length close" for i
    using that rolling_mean_short [of i close 20] rolling_mean_full [of i close 20]
    by (simp add: sma_indicator_def)
  show ?thesis
    using Some ma_result(2,3) [OF Some, of L] rows
    by (intro exI [of _ close] exI [of _ "sma_indicator 20 close"]) (simp add: getitem_iff)
qed

theorem sma_20_is_mean_of_close_witness:
  "fst (add_moving_averages echo_lib (GoldFeatureEngineering days50)) = None
   \<and> (\<exists>sma. df_getitem (df (snd (add_moving_averages echo_lib (GoldFeatureEngineering days50))))
                ''SMA_20'' = Inr sma
            \<and> length sma = 50 \<and> sma ! 18 = NaN \<and> sma ! 19 = Num (21 / 2)
            \<and> sma ! 49 = Num (81 / 2))"
proof -
  have h: "fst (add_moving_averages echo_lib (GoldFeatureEngineering days50)) = None"
    by (rule ma_result(1) [OF days50_columns(1)])
  obtain close sma where
    c: "df_getitem (df (snd (add_moving_averages echo_lib (GoldFeatureEngineering days50))))
          ''Close'' = Inr close"
    and s: "df_getitem (df (snd (add_moving_averages echo_lib (GoldFeatureEngineering days50))))
          ''SMA_20'' = Inr sma"
    and l: "length sma = length close"
    and r: "\<forall>i < length close.
               (i < 19 \<longrightarrow> sma ! i = NaN)
             \<and> (19 \<le> i \<longrightarrow> sma ! i = arithmetic_mean (map ((!) close) [i - 19..<Suc i]))"
    using sma_20_is_mean_of_close [OF h] by (elim exE conjE) (rule that)
  have close: "close = rising50"
    using c ma_result(2) [OF days50_columns(1), of echo_lib] by (simp add: getitem_iff)
  have "sma ! 18 = NaN" "sma ! 19 = Num (21 / 2)" "sma ! 49 = Num (81 / 2)"
    using r [rule_format, of 18] r [rule_format, of 19] r [rule_format, of 49]
    by (simp_all add: close rising50_means del: upt_rec_numeral)
  then show ?thesis using h s l by (simp add: close rising50_means)
qed

subsection \<open>The cross signals\<close>



text \<open>
  C10. After \<open>add_moving_averages\<close> has completed, \<open>SMA_Cross_20_50\<close> is 0, not \<open>NaN\<close>,
  at every row where \<open>SMA_20\<close> or \<open>SMA_50\<close> is \<open>NaN\<close>, which includes every row
  \<open>i < 49\<close>; and \<open>EMA_Cross_12_26\<close> is 0 at every row where \<open>EMA_12\<close> or \<open>EMA_26\<close> is
  \<open>NaN\<close>.
\<close>

theorem cross_signals_zero_on_missing:
  assumes "fst (add_moving_averages L b) = None"
  shows "\<exists>s20 s50 e12 e26 sc ec.
           df_getitem (df (snd (add_moving_averages L b))) ''SMA_20'' = Inr s20
         \<and> df_getitem (df (snd (add_moving_averages L b))) ''SMA_50'' = Inr s50
         \<and> df_getitem (df (snd (add_moving_averages L b))) ''EMA_12'' = Inr e12
         \<and> df_getitem (df (snd (add_moving_averages L b))) ''EMA_26'' = Inr e26
         \<and> df_getitem (df (snd (add_moving_averages L b))) ''SMA_Cross_20_50'' = Inr sc
         \<and> df_getitem (df (snd (add_moving_averages L b))) ''EMA_Cross_12_26'' = Inr ec
         \<and> length s20 = length sc \<and> length s50 = length sc
         \<and> length e12 = length sc \<and> length e26 = length sc \<and> length ec = length sc
         \<and> (\<forall>i < length sc.
               (s20 ! i = NaN \<or> s50 ! i = NaN \<longrightarrow> sc ! i = Num 0)
             \<and> (i < 49 \<longrightarrow> s50 ! i = NaN \<and> sc ! i = Num 0)
             \<and> (e12 ! i = NaN \<or> e26 ! i = NaN \<longrightarrow> ec ! i = Num 0))"
proof (cases "map_of (columns (df b)) ''Close''")
  case None
  then show ?thesis using assms ma_raises [of b L] by simp
next
  case (Some close)
  let ?s20 = "sma_indicator 20 close" and ?s50 = "sma_indicator 50 close"
  let ?e12 = "on_index close (ema_indicator L 12 close)"
  let ?e26 = "on_index close (ema_indicator L 26 close)"
  let ?sc = "np_where (series_gt ?s20 ?s50) (Num 1) (Num 0)"
  let ?ec = "np_where (series_gt ?e12 ?e26) (Num 1) (Num 0)"
  have len: "length ?sc = length close" "length ?ec = length close"
    by simp_all
  have rows: "(?s20 ! i = NaN \<or> ?s50 ! i = NaN \<longrightarrow> ?sc ! i = Num 0)
      \<and> (i < 49 \<longrightarrow> ?s50 ! i = NaN \<and> ?sc ! i = Num 0)
      \<and> (?e12 ! i = NaN \<or> ?e26 ! i = NaN \<longrightarrow> ?ec ! i = Num 0)"
    if i: "i < length close" for i
  proof -
    have early: "i < 49 \<Longrightarrow> ?s50 ! i = NaN"
      using i rolling_mean_short [of i close 50] by (simp add: sma_indicator_def)
    have sc: "?sc ! i = (if cell_gt (?s20 ! i) (?s50 ! i) then Num 1 else Num 0)"
      and ec: "?ec ! i = (if cell_gt (?e12 ! i) (?e26 ! i) then Num 1 else Num 0)"
      using i by (simp_all add: np_where_gt_nth)
    have "?s20 ! i = NaN \<or> ?s50 ! i = NaN \<Longrightarrow> ?sc ! i = Num 0"
      unfolding sc using cell_gt_NaN_right [of "?s20 ! i"] by (cases "?s20 ! i = NaN") simp_all
    moreover have "?e12 ! i = NaN \<or> ?e26 ! i = NaN \<Longrightarrow> ?ec ! i = Num 0"
      unfolding ec using cell_gt_NaN_right [of "?e12 ! i"] by (cases "?e12 ! i = NaN") simp_all
    ultimately show ?thesis using early by blast
  qed
  have all: "\<forall>i < length close.
        (?s20 ! i = NaN \<or> ?s50 ! i = NaN \<longrightarrow> ?sc ! i = Num 0)
      \<and> (i < 49 \<longrightarrow> ?s50 ! i = NaN \<and> ?sc ! i = Num 0)
      \<and> (?e12 ! i = NaN \<or> ?e26 ! i = NaN \<longrightarrow> ?ec ! i = Num 0)"
    by (intro allI impI) (rule rows)
  have "df_getitem (df (snd (add_moving_averages L b))) ''SMA_20'' = Inr ?s20
      \<and> df_getitem (df (snd (add_moving_averages L b))) ''SMA_50'' = Inr ?s50
      \<and> df_getitem (df (snd (add_moving_averages L b))) ''EMA_12'' = Inr ?e12
      \<and> df_getitem (df (snd (add_moving_averages L b))) ''EMA_26'' = Inr ?e26
      \<and> df_getitem (df (snd (add_moving_averages L b))) ''SMA_Cross_20_50'' = Inr ?sc
      \<and> df_getitem (df (snd (add_moving_averages L b))) ''EMA_Cross_12_26'' = Inr ?ec
      \<and> length ?s20 = length ?sc \<and> length ?s50 = length ?sc
      \<and> length ?e12 = length ?sc \<and> length ?e26 = length ?sc \<and> length ?ec = length ?sc
      \<and> (\<forall>i < length ?sc.
            (?s20 ! i = NaN \<or> ?s50 ! i = NaN \<longrightarrow> ?sc ! i = Num 0)
          \<and> (i < 49 \<longrightarrow> ?s50 ! i = NaN \<and> ?sc ! i = Num 0)
          \<and> (?e12 ! i = NaN \<or> ?e26 ! i = NaN \<longrightarrow> ?ec ! i = Num 0))"
    using ma_result(3-8) [OF Some, of L] all unfolding len
    by (simp only: getitem_iff series_lengths simp_thms)
  then show ?thesis by (intro exI)
qed

theorem cross_signals_zero_on_missing_witness:
  "fst (add_moving_averages echo_lib (GoldFeatureEngineering gap2)) = None
   \<and> (\<exists>s20 e12 sc ec.
         df_getitem (df (snd (add_moving_averages echo_lib (GoldFeatureEngineering gap2))))
           ''SMA_20'' = Inr s20
       \<and> df_getitem (df (snd (add_moving_averages echo_lib (GoldFeatureEngineering gap2))))
           ''EMA_12'' = Inr e12
       \<and> df_getitem (df (snd (add_moving_averages echo_lib (GoldFeatureEngineering gap2))))
           ''SMA_Cross_20_50'' = Inr sc
       \<and> df_getitem (df (snd (add_moving_averages echo_lib (GoldFeatureEngineering gap2))))
           ''EMA_Cross_12_26'' = Inr ec
       \<and> length sc = 2 \<and> s20 ! 0 = NaN \<and> e12 ! 0 = NaN
       \<and> sc ! 0 = Num 0 \<and> sc ! 1 = Num 0 \<and> ec ! 0 = Num 0)"
proof -
  have h: "fst (add_moving_averages echo_lib (GoldFeatureEngineering gap2)) = None"
    by (rule ma_result(1) [OF gap2_close])
  obtain s20 s50 e12 e26 sc ec where
    a: "df_getitem (df (snd (add_moving_averages echo_lib (GoldFeatureEngineering gap2))))
          ''SMA_20'' = Inr s20"
    and b: "df_getitem (df (snd (add_moving_averages echo_lib (GoldFeatureEngineering gap2))))
          ''EMA_12'' = Inr e12"
    and c: "df_getitem (df (snd (add_moving_averages echo_lib (GoldFeatureEngineering gap2))))
          ''SMA_Cross_20_50'' = Inr sc"
    and d: "df_getitem (df (snd (add_moving_averages echo_lib (GoldFeatureEngineering gap2))))
          ''EMA_Cross_12_26'' = Inr ec"
    and l: "length s20 = length sc"
    and r: "\<forall>i < length sc.
               (s20 ! i = NaN \<or> s50 ! i = NaN \<longrightarrow> sc ! i = Num 0)
             \<and> (i < 49 \<longrightarrow> s50 ! i = NaN \<and> sc ! i = Num 0)
             \<and> (e12 ! i = NaN \<or> e26 ! i = NaN \<longrightarrow> ec ! i = Num 0)"
    using cross_signals_zero_on_missing [OF h] by (elim exE conjE) (rule that)
  have s20: "s20 = sma_indicator 20 [NaN, Num 12]"
    and e12: "e12 = on_index [NaN, Num 12] (ema_indicator echo_lib 12 [NaN, Num 12])"
    using a b ma_result(3,5) [OF gap2_close, of echo_lib] by (simp_all add: getitem_iff)
  have len: "length sc = 2"
    using l by (simp add: s20)
  have v: "s20 ! 0 = NaN" "e12 ! 0 = NaN"
    using rolling_mean_short [of 0 "[NaN, Num 12]" 20]
    by (simp_all add: s20 e12 sma_indicator_def on_index_def echo_lib_def)
  have "sc ! 0 = Num 0" "sc ! 1 = Num 0" "ec ! 0 = Num 0"
    using r [rule_format, of 0] r [rule_format, of 1] v by (simp_all add: len)
  then show ?thesis
    using h a b c d len v by simp
qed

subsection \<open>The MACD histogram\<close>

text \<open>
  C5. After \<open>add_momentum_indicators\<close> has completed, the columns \<open>MACD\<close>,
  \<open>MACD_Signal\<close> and \<open>MACD_Diff\<close> have a cell for each row of \<open>Close\<close>, and at every
  row \<open>MACD_Diff\<close> is \<open>MACD\<close> minus \<open>MACD_Signal\<close>: where the two are the numbers \<open>x\<close>
  and \<open>y\<close>, it is the number \<open>x - y\<close>.
\<close>

theorem macd_diff_is_macd_minus_signal:
  assumes "fst (add_momentum_indicators L b) = None"
  shows "\<exists>close m sg d.
           df_getitem (df b) ''Close'' = Inr close
         \<and> df_getitem (df (snd (add_momentum_indicators L b))) ''MACD'' = Inr m
         \<and> df_getitem (df (snd (add_momentum_indicators L b))) ''MACD_Signal'' = Inr sg
         \<and> df_getitem (df (snd (add_momentum_indicators L b))) ''MACD_Diff'' = Inr d
         \<and> length m = length close \<and> length sg = length close \<and> length d = length close
         \<and> (\<forall>i < length close.
               d ! i = cell_sub (m ! i) (sg ! i)
             \<and> (\<forall>x y. m ! i = Num x \<and> sg ! i = Num y \<longrightarrow> d ! i = Num (x - y)))"
proof -
  obtain close high low where c: "map_of (columns (df b)) ''Close'' = Some close"
    and h: "map_of (columns (df b)) ''High'' = Some high"
    and l: "map_of (columns (df b)) ''Low'' = Some low"
    using assms by (rule mom_completes)
  let ?m = "macd L 26 12 9 close" and ?sg = "macd_signal L 26 12 9 close"
  let ?d = "macd_diff L 26 12 9 close"
  have all: "\<forall>i < length close.
               ?d ! i = cell_sub (?m ! i) (?sg ! i)
             \<and> (\<forall>x y. ?m ! i = Num x \<and> ?sg ! i = Num y \<longrightarrow> ?d ! i = Num (x - y))"
  proof (intro allI impI)
    fix i assume i: "i < length close"
    have d: "?d ! i = cell_sub (?m ! i) (?sg ! i)"
      using i by (simp add: macd_diff_def series_sub_def)
    show "?d ! i = cell_sub (?m ! i) (?sg ! i)
        \<and> (\<forall>x y. ?m ! i = Num x \<and> ?sg ! i = Num y \<longrightarrow> ?d ! i = Num (x - y))"
      unfolding d by (simp add: cell_sub_def)
  qed
  have "df_getitem (df b) ''Close'' = Inr close
         \<and> df_getitem (df (snd (add_momentum_indicators L b))) ''MACD'' = Inr ?m
         \<and> df_getitem (df (snd (add_momentum_indicators L b))) ''MACD_Signal'' = Inr ?sg
         \<and> df_getitem (df (snd (add_momentum_indicators L b))) ''MACD_Diff'' = Inr ?d
         \<and> length ?m = length close \<and> length ?sg = length close \<and> length ?d = length close
         \<and> (\<forall>i < length close.
               ?d ! i = cell_sub (?m ! i) (?sg ! i)
             \<and> (\<forall>x y. ?m ! i = Num x \<and> ?sg ! i = Num y \<longrightarrow> ?d ! i = Num (x - y)))"
    using c mom_result(2-4) [OF c h l, of L] all
    by (simp only: getitem_iff series_lengths simp_thms)
  then show ?thesis by (intro exI)
qed

theorem macd_diff_is_macd_minus_signal_witness:
  "fst (add_momentum_indicators echo_lib (GoldFeatureEngineering ohlcv2)) = None
   \<and> (\<exists>m sg d.
         df_getitem (df (snd (add_momentum_indicators echo_lib (GoldFeatureEngineering ohlcv2))))
           ''MACD'' = Inr m
       \<and> df_getitem (df (snd (add_momentum_indicators echo_lib (GoldFeatureEngineering ohlcv2))))
           ''MACD_Signal'' = Inr sg
       \<and> df_getitem (df (snd (add_momentum_indicators echo_lib (GoldFeatureEngineering ohlcv2))))
           ''MACD_Diff'' = Inr d
       \<and> m = [Num 11, Num 12] \<and> sg = [Num 1, Num 1] \<and> length d = 2
       \<and> d ! 0 = Num 10 \<and> d ! 1 = Num 11)"
proof -
  have h: "fst (add_momentum_indicators echo_lib (GoldFeatureEngineering ohlcv2)) = None"
    by (rule mom_result(1) [OF ohlcv2_columns(1-3)])
  obtain close m sg d where
    a: "df_getitem (df (GoldFeatureEngineering ohlcv2)) ''Close'' = Inr close"
    and m: "df_getitem (df (snd (add_momentum_indicators echo_lib (GoldFeatureEngineering ohlcv2))))
          ''MACD'' = Inr m"
    and sg: "df_getitem (df (snd (add_momentum_indicators echo_lib (GoldFeatureEngineering ohlcv2))))
          ''MACD_Signal'' = Inr sg"
    and d: "df_getitem (df (snd (add_momentum_indicators echo_lib (GoldFeatureEngineering ohlcv2))))
          ''MACD_Diff'' = Inr d"
    and l: "length d = length close"
    and r: "\<forall>i < length close.
               d ! i = cell_sub (m ! i) (sg ! i)
             \<and> (\<forall>x y. m ! i = Num x \<and> sg ! i = Num y \<longrightarrow> d ! i = Num (x - y))"
    using macd_diff_is_macd_minus_signal [OF h] by (elim exE conjE) (rule that)
  have close: "close = [Num 11, Num 12]"
    using a ohlcv2_columns(1) by (simp add: getitem_iff)
  have mv: "m = [Num 11, Num 12]" and sv: "sg = [Num 1, Num 1]"
    using m sg mom_result(2,3) [OF ohlcv2_columns(1-3), of echo_lib]
    by (simp_all add: getitem_iff macd_def macd_signal_def on_index_def echo_lib_def)
  have "d ! 0 = Num 10" "d ! 1 = Num 11"
    using r [rule_format, of 0] r [rule_format, of 1] by (simp_all add: close mv sv cell_sub_def)
  then show ?thesis
    using h m sg d l by (simp add: close mv sv)
qed

subsection \<open>The volume ratio\<close>

text \<open>
  C7. After \<open>add_volume_indicators\<close> has completed on a table with a column \<open>Volume\<close>,
  at every row \<open>i\<close> the column \<open>Volume_Ratio\<close> is \<open>Volume\<close> divided by \<open>Volume_SMA_20\<close>;
  \<open>Volume_SMA_20\<close> is the mean of \<open>Volume\<close> over the rows \<open>i - 19\<close> to \<open>i\<close> for
  \<open>i \<ge> 19\<close>; for \<open>i < 19\<close> it is \<open>NaN\<close>, and so is \<open>Volume_Ratio\<close>.
\<close>

theorem volume_ratio_is_volume_over_mean:
  assumes "''Volume'' \<in> set (column_names (df b))"
    and "fst (add_volume_indicators L b) = None"
  shows "\<exists>volume vsma ratio.
           df_getitem (df b) ''Volume'' = Inr volume
         \<and> df_getitem (df (snd (add_volume_indicators L b))) ''Volume'' = Inr volume
         \<and> df_getitem (df (snd (add_volume_indicators L b))) ''Volume_SMA_20'' = Inr vsma
         \<and> df_getitem (df (snd (add_volume_indicators L b))) ''Volume_Ratio'' = Inr ratio
         \<and> length vsma = length volume \<and> length ratio = length volume
         \<and> (\<forall>i < length volume.
               ratio ! i = cell_div (volume ! i) (vsma ! i)
             \<and> (i < 19 \<longrightarrow> vsma ! i = NaN \<and> ratio ! i = NaN)
             \<and> (19 \<le> i \<longrightarrow> vsma ! i = arithmetic_mean (map ((!) volume) [i - 19..<Suc i])))"
proof -
  obtain volume where vol: "map_of (columns (df b)) ''Volume'' = Some volume"
    using assms(1) by (auto simp: has_column)
  show ?thesis
  proof (cases "map_of (columns (df b)) ''Close''")
    case None
    then show ?thesis using assms vol_raises [of b L] by simp
  next
    case (Some close)
    let ?vsma = "rolling_mean 20 volume"
    let ?ratio = "series_div volume ?vsma"
    have all: "\<forall>i < length volume.
               ?ratio ! i = cell_div (volume ! i) (?vsma ! i)
             \<and> (i < 19 \<longrightarrow> ?vsma ! i = NaN \<and> ?ratio ! i = NaN)
             \<and> (19 \<le> i \<longrightarrow> ?vsma ! i = arithmetic_mean (map ((!) volume) [i - 19..<Suc i]))"
    proof (intro allI impI)
      fix i assume i: "i < length volume"
      have r: "?ratio ! i = cell_div (volume ! i) (?vsma ! i)"
        using i by (simp add: series_div_def)
      have short: "i < 19 \<Longrightarrow> ?vsma ! i = NaN"
        using i rolling_mean_short [of i volume 20] by simp
      have full: "19 \<le> i \<Longrightarrow> ?vsma ! i = arithmetic_mean (map ((!) volume) [i - 19..<Suc i])"
        using i rolling_mean_full [of i volume 20] by simp
      show "?ratio ! i = cell_div (volume ! i) (?vsma ! i)
             \<and> (i < 19 \<longrightarrow> ?vsma ! i = NaN \<and> ?ratio ! i = NaN)
             \<and> (19 \<le> i \<longrightarrow> ?vsma ! i = arithmetic_mean (map ((!) volume) [i - 19..<Suc i]))"
        using r short full by (simp add: cell_div_NaN_right)
    qed
    have "df_getitem (df b) ''Volume'' = Inr volume
         \<and> df_getitem (df (snd (add_volume_indicators L b))) ''Volume'' = Inr volume
         \<and> df_getitem (df (snd (add_volume_indicators L b))) ''Volume_SMA_20'' = Inr ?vsma
         \<and> df_getitem (df (snd (add_volume_indicators L b))) ''Volume_Ratio'' = Inr ?ratio
         \<and> length ?vsma = length volume \<and> length ?ratio = length volume
         \<and> (\<forall>i < length volume.
               ?ratio ! i = cell_div (volume ! i) (?vsma ! i)
             \<and> (i < 19 \<longrightarrow> ?vsma ! i = NaN \<and> ?ratio ! i = NaN)
             \<and> (19 \<le> i \<longrightarrow> ?vsma ! i = arithmetic_mean (map ((!) volume) [i - 19..<Suc i])))"
      using vol vol_result(2-4) [OF Some vol, of L] all
      by (simp only: getitem_iff series_lengths simp_thms min.idem)
    then show ?thesis by (intro exI)
  qed
qed

theorem volume_ratio_is_volume_over_mean_witness:
  "''Volume'' \<in> set (column_names (df (GoldFeatureEngineering days50)))
   \<and> fst (add_volume_indicators echo_lib (GoldFeatureEngineering days50)) = None
   \<and> (\<exists>vsma ratio.
         df_getitem (df (snd (add_volume_indicators echo_lib (GoldFeatureEngineering days50))))
           ''Volume_SMA_20'' = Inr vsma
       \<and> df_getitem (df (snd (add_volume_indicators echo_lib (GoldFeatureEngineering days50))))
           ''Volume_Ratio'' = Inr ratio
       \<and> length ratio = 50
       \<and> vsma ! 18 = NaN \<and> ratio ! 18 = NaN
       \<and> vsma ! 19 = Num 1050 \<and> ratio ! 19 = Num (40 / 21))"
proof -
  have v: "''Volume'' \<in> set (column_names (df (GoldFeatureEngineering days50)))"
    using days50_columns(2) by (simp add: has_column)
  have h: "fst (add_volume_indicators echo_lib (GoldFeatureEngineering days50)) = None"
    by (rule vol_result(1) [OF days50_columns])
  obtain volume vsma ratio where
    a: "df_getitem (df (GoldFeatureEngineering days50)) ''Volume'' = Inr volume"
    and b: "df_getitem (df (snd (add_volume_indicators echo_lib (GoldFeatureEngineering days50))))
          ''Volume_SMA_20'' = Inr vsma"
    and c: "df_getitem (df (snd (add_volume_indicators echo_lib (GoldFeatureEngineering days50))))
          ''Volume_Ratio'' = Inr ratio"
    and l: "length ratio = length volume"
    and r: "\<forall>i < length volume.
               ratio ! i = cell_div (volume ! i) (vsma ! i)
             \<and> (i < 19 \<longrightarrow> vsma ! i = NaN \<and> ratio ! i = NaN)
             \<and> (19 \<le> i \<longrightarrow> vsma ! i = arithmetic_mean (map ((!) volume) [i - 19..<Suc i]))"
    using volume_ratio_is_volume_over_mean [OF v h] by (elim exE conjE) (rule that)
  have volume: "volume = volume50"
    using a days50_columns(2) by (simp add: getitem_iff)
  have r18: "vsma ! 18 = NaN" "ratio ! 18 = NaN"
    using r [rule_format, of 18] by (simp_all add: volume volume50_values cell_div_NaN_right)
  have r19: "vsma ! 19 = Num 1050"
    using r [rule_format, of 19] by (simp add: volume volume50_values del: upt_rec_numeral)
  have "ratio ! 19 = cell_div (volume50 ! 19) (vsma ! 19)"
    using r [rule_format, of 19] by (simp add: volume volume50_values del: upt_rec_numeral)
  then have q19: "ratio ! 19 = Num (40 / 21)"
    by (simp add: r19 volume50_values)
  show ?thesis
    using v h b c l r18 r19 q19 by (simp add: volume volume50_values)
qed

subsection \<open>The order of the passes\<close>

text \<open>
  A pass writes no column but its own: every other column is after the pass, raised or
  not, what it was before.
\<close>

lemma keeps_read: "(\<And>s. keeps P (k s)) \<Longrightarrow> keeps P (read name k)"
  by (simp add: keeps_def read_def split: sum.splits)

lemma keeps_assign_other: "c \<noteq> name \<Longrightarrow> keeps (column_is c v) (assign name s)"
  by (auto simp: keeps_def assign_def column_is_def df_setitem_def map_of_put_column)

lemma keeps_append_column: "keeps (column_is c v) (append_feature name)"
  by (simp add: keeps_def append_feature_def column_is_def)

lemma keeps_extend_column: "keeps (column_is c v) (extend_features names)"
  by (simp add: keeps_def extend_features_def column_is_def)

lemma keeps_block_Nil: "keeps P (block [])"
  by (simp add: keeps_def)

lemma keeps_block_Cons: "keeps P s \<Longrightarrow> keeps P (block ss) \<Longrightarrow> keeps P (block (s # ss))"
  by (auto simp: keeps_def split: prod.splits option.splits)

lemmas keeps_column = keeps_block_Cons keeps_block_Nil keeps_read keeps_assign_other
  keeps_append_column keeps_extend_column

lemmas loops = for_in_def list.map str_nat_names append.simps

lemma ma_frame:
  assumes "c \<notin> set (pass_columns MovingAverages)"
  shows "keeps (column_is c v) (add_moving_averages L)"
  unfolding add_moving_averages_def loops
  by (intro keeps_column) (use assms in \<open>simp_all add: pass_columns_def\<close>)

lemma mom_frame:
  assumes "c \<notin> set (pass_columns Momentum)"
  shows "keeps (column_is c v) (add_momentum_indicators L)"
  unfolding add_momentum_indicators_def loops
  by (intro keeps_column) (use assms in \<open>simp_all add: pass_columns_def\<close>)

lemma vola_frame:
  assumes "c \<notin> set (pass_columns Volatility)"
  shows "keeps (column_is c v) (add_volatility_indicators L)"
  unfolding add_volatility_indicators_def loops
  by (intro keeps_column) (use assms in \<open>simp_all add: pass_columns_def\<close>)

lemma vol_frame:
  assumes "c \<notin> set (pass_columns Volume)"
  shows "keeps (column_is c v) (add_volume_indicators L)"
proof -
  have "keeps (column_is c v) (block [
        read ''Close'' (\<lambda>close. read ''Volume'' (\<lambda>volume. block [
          assign ''OBV'' (on_index close (on_balance_volume L close volume)),
          append_feature ''OBV''])),
        for_in [10, 20] (\<lambda>period.
          read ''Volume'' (\<lambda>volume. block [
            assign (''Volume_SMA_'' @ str_nat period) (rolling_mean period volume),
            append_feature (''Volume_SMA_'' @ str_nat period)])),
        read ''Volume'' (\<lambda>volume. read ''Volume_SMA_20'' (\<lambda>vsma. block [
          assign ''Volume_Ratio'' (series_div volume vsma),
          append_feature ''Volume_Ratio'']))])"
    unfolding loops
    by (intro keeps_column) (use assms in \<open>simp_all add: pass_columns_def\<close>)
  then show ?thesis
    by (simp add: keeps_def add_volume_indicators_def)
qed

lemma pass_frame:
  assumes "c \<notin> set (pass_columns p)"
  shows "map_of (columns (df (snd (run_pass L p b)))) c = map_of (columns (df b)) c"
proof -
  have "keeps (column_is c (map_of (columns (df b)) c)) (run_pass L p)"
    using assms by (cases p) (simp_all add: ma_frame mom_frame vola_frame vol_frame)
  then show ?thesis by (simp add: keeps_def column_is_def)
qed

text \<open>
  A pass reads the input columns and columns of its own, nothing else: what it does is
  determined by the contents of these.
\<close>

lemma agree_getitem:
  "agree C b1 b2 \<Longrightarrow> name \<in> C \<Longrightarrow> df_getitem (df b1) name = df_getitem (df b2) name"
  by (simp add: agree_def df_getitem_def)

lemma reads_block_Nil: "reads_within C (block [])"
  by (simp add: reads_within_def)

lemma reads_block_Cons:
  assumes "reads_within C s" and "reads_within C (block ss)"
  shows "reads_within C (block (s # ss))"
  unfolding reads_within_def
proof (intro allI impI)
  fix b1 b2 assume a: "agree C b1 b2"
  obtain e1 c1 where s1: "s b1 = (e1, c1)" by (cases "s b1")
  obtain e2 c2 where s2: "s b2 = (e2, c2)" by (cases "s b2")
  have "fst (s b1) = fst (s b2) \<and> agree C (snd (s b1)) (snd (s b2))"
    using assms(1) a unfolding reads_within_def by blast
  then have e: "e1 = e2" and c: "agree C c1 c2"
    by (simp_all add: s1 s2)
  show "fst (block (s # ss) b1) = fst (block (s # ss) b2)
      \<and> agree C (snd (block (s # ss) b1)) (snd (block (s # ss) b2))"
  proof (cases e1)
    case None
    then show ?thesis using assms(2) c e s1 s2 by (simp add: reads_within_def)
  next
    case (Some err)
    then show ?thesis using c e s1 s2 by simp
  qed
qed

lemma reads_read:
  assumes "name \<in> C" and "\<And>v. reads_within C (k v)"
  shows "reads_within C (read name k)"
  unfolding reads_within_def
proof (intro allI impI)
  fix b1 b2 assume a: "agree C b1 b2"
  have g: "df_getitem (df b1) name = df_getitem (df b2) name"
    using a assms(1) by (rule agree_getitem)
  show "fst (read name k b1) = fst (read name k b2)
      \<and> agree C (snd (read name k b1)) (snd (read name k b2))"
  proof (cases "df_getitem (df b2) name")
    case (Inl e)
    then show ?thesis using a g by (simp add: read_def)
  next
    case (Inr v)
    then show ?thesis using a g assms(2) [of v] by (simp add: read_def reads_within_def)
  qed
qed

lemma reads_assign: "reads_within C (assign name v)"
  by (simp add: reads_within_def agree_def assign_def df_setitem_def map_of_put_column)

lemma reads_append: "reads_within C (append_feature name)"
  by (simp add: reads_within_def agree_def append_feature_def)

lemma reads_extend: "reads_within C (extend_features names)"
  by (simp add: reads_within_def agree_def extend_features_def)

lemmas reads_rules = reads_block_Cons reads_block_Nil reads_read reads_assign
  reads_append reads_extend

lemma ma_reads:
  assumes "{''Close'', ''SMA_20'', ''SMA_50'', ''EMA_12'', ''EMA_26''} \<subseteq> C"
  shows "reads_within C (add_moving_averages L)"
  unfolding add_moving_averages_def loops
  by (intro reads_rules) (use assms in simp_all)

lemma mom_reads:
  assumes "{''Close'', ''High'', ''Low''} \<subseteq> C"
  shows "reads_within C (add_momentum_indicators L)"
  unfolding add_momentum_indicators_def loops
  by (intro reads_rules) (use assms in simp_all)

lemma vola_reads:
  assumes "{''Close'', ''High'', ''Low''} \<subseteq> C"
  shows "reads_within C (add_volatility_indicators L)"
  unfolding add_volatility_indicators_def loops
  by (intro reads_rules) (use assms in simp_all)

lemma vol_reads:
  assumes "{''Close'', ''Volume'', ''Volume_SMA_20''} \<subseteq> C"
  shows "reads_within C (add_volume_indicators L)"
proof -
  let ?body = "block [
        read ''Close'' (\<lambda>close. read ''Volume'' (\<lambda>volume. block [
          assign ''OBV'' (on_index close (on_balance_volume L close volume)),
          append_feature ''OBV''])),
        for_in [10, 20] (\<lambda>period.
          read ''Volume'' (\<lambda>volume. block [
            assign (''Volume_SMA_'' @ str_nat period) (rolling_mean period volume),
            append_feature (''Volume_SMA_'' @ str_nat period)])),
        read ''Volume'' (\<lambda>volume. read ''Volume_SMA_20'' (\<lambda>vsma. block [
          assign ''Volume_Ratio'' (series_div volume vsma),
          append_feature ''Volume_Ratio'']))]"
  have body: "reads_within C ?body"
    unfolding loops by (intro reads_rules) (use assms in simp_all)
  show ?thesis
    unfolding reads_within_def
  proof (intro allI impI)
    fix b1 b2 assume a: "agree C b1 b2"
    have "map_of (columns (df b1)) ''Volume'' = map_of (columns (df b2)) ''Volume''"
      using a assms by (simp add: agree_def)
    then have guard: "''Volume'' \<in> set (column_names (df b1))
        \<longleftrightarrow> ''Volume'' \<in> set (column_names (df b2))"
      by (simp add: has_column)
    show "fst (add_volume_indicators L b1) = fst (add_volume_indicators L b2)
        \<and> agree C (snd (add_volume_indicators L b1)) (snd (add_volume_indicators L b2))"
    proof (cases "''Volume'' \<in> set (column_names (df b2))")
      case True
      then have "add_volume_indicators L b1 = ?body b1" "add_volume_indicators L b2 = ?body b2"
        using guard by (simp_all add: add_volume_indicators_def)
      then show ?thesis using body a by (simp add: reads_within_def)
    next
      case False
      then show ?thesis using guard a by (simp add: add_volume_indicators_def)
    qed
  qed
qed

lemma pass_reads:
  assumes "set input_columns \<union> set (pass_columns q) \<subseteq> C"
  shows "reads_within C (run_pass L q)"
proof (cases q)
  case MovingAverages
  then show ?thesis
    using assms ma_reads [of C L] by (simp add: input_columns_def pass_columns_def)
next
  case Momentum
  then show ?thesis
    using assms mom_reads [of C L] by (simp add: input_columns_def)
next
  case Volatility
  then show ?thesis
    using assms vola_reads [of C L] by (simp add: input_columns_def)
next
  case Volume
  then show ?thesis
    using assms vol_reads [of C L] by (simp add: input_columns_def pass_columns_def)
qed

lemma pass_columns_disjoint:
  "p \<noteq> q \<Longrightarrow> set (pass_columns p) \<inter> set (pass_columns q) = {}"
  "set input_columns \<inter> set (pass_columns p) = {}"
  by (cases p; cases q; simp add: pass_columns_def input_columns_def)+

lemma getitem_eq_iff:
  "df_getitem d c = df_getitem d' c \<longleftrightarrow> map_of (columns d) c = map_of (columns d') c"
  by (auto simp: df_getitem_def split: option.splits)

lemma pass_after_pass:
  assumes "p \<noteq> q"
  shows "fst (run_pass L q (snd (run_pass L p b))) = fst (run_pass L q b)"
    and "map_of (columns (df (snd (run_pass L q (snd (run_pass L p b)))))) c
           = (if c \<in> set (pass_columns q) then map_of (columns (df (snd (run_pass L q b)))) c
              else map_of (columns (df (snd (run_pass L p b)))) c)"
proof -
  let ?C = "set input_columns \<union> set (pass_columns q)"
  have "agree ?C (snd (run_pass L p b)) b"
    unfolding agree_def
  proof
    fix x assume "x \<in> ?C"
    then have "x \<notin> set (pass_columns p)"
      using pass_columns_disjoint(1) [OF assms] pass_columns_disjoint(2) [of p] by blast
    then show "map_of (columns (df (snd (run_pass L p b)))) x = map_of (columns (df b)) x"
      by (rule pass_frame)
  qed
  moreover have "reads_within ?C (run_pass L q)"
    by (rule pass_reads) simp
  ultimately have r: "fst (run_pass L q (snd (run_pass L p b))) = fst (run_pass L q b)
      \<and> agree ?C (snd (run_pass L q (snd (run_pass L p b)))) (snd (run_pass L q b))"
    unfolding reads_within_def by blast
  show "fst (run_pass L q (snd (run_pass L p b))) = fst (run_pass L q b)"
    using r by simp
  show "map_of (columns (df (snd (run_pass L q (snd (run_pass L p b)))))) c
           = (if c \<in> set (pass_columns q) then map_of (columns (df (snd (run_pass L q b)))) c
              else map_of (columns (df (snd (run_pass L p b)))) c)"
  proof (cases "c \<in> set (pass_columns q)")
    case True
    then show ?thesis using r by (simp add: agree_def)
  next
    case False
    then show ?thesis using pass_frame [of c q L "snd (run_pass L p b)"] by simp
  qed
qed

lemma ohlcv2_volume_mean: "rolling_mean 20 [Num 100, Num 0] = [NaN, NaN]"
  by (intro nth_equalityI) (auto simp: rolling_mean_short less_Suc_eq)

text \<open>
  C8. The four passes may be called in any order, and no pass reads a column that
  another pass creates; \<open>add_volume_indicators\<close> needs nothing from
  \<open>add_moving_averages\<close>. For two different passes \<open>p\<close> and \<open>q\<close> and any builder:
  \<open>q\<close> called after \<open>p\<close> raises exactly when \<open>q\<close> called without \<open>p\<close> does, with the
  same error; after \<open>p\<close> then \<open>q\<close> the columns of \<open>q\<close> are what \<open>q\<close> alone leaves and every
  other column is what \<open>p\<close> left; and the two orders give every column the same contents.
\<close>

theorem passes_in_any_order:
  assumes "p \<noteq> q"
  shows "fst (run_pass L q (snd (run_pass L p b))) = fst (run_pass L q b)
       \<and> (\<forall>c. df_getitem (df (snd (run_pass L q (snd (run_pass L p b))))) c
              = (if c \<in> set (pass_columns q) then df_getitem (df (snd (run_pass L q b))) c
                 else df_getitem (df (snd (run_pass L p b))) c))
       \<and> (\<forall>c. df_getitem (df (snd (run_pass L q (snd (run_pass L p b))))) c
              = df_getitem (df (snd (run_pass L p (snd (run_pass L q b))))) c)"
proof -
  have qp: "q \<noteq> p" using assms by simp
  have swap: "map_of (columns (df (snd (run_pass L q (snd (run_pass L p b)))))) c
      = map_of (columns (df (snd (run_pass L p (snd (run_pass L q b)))))) c" for c
  proof (cases "c \<in> set (pass_columns q)")
    case True
    then have "c \<notin> set (pass_columns p)"
      using pass_columns_disjoint(1) [OF assms] by blast
    then show ?thesis
      using True pass_after_pass(2) [OF assms, of L b c] pass_after_pass(2) [OF qp, of L b c]
      by simp
  next
    case False
    show ?thesis
    proof (cases "c \<in> set (pass_columns p)")
      case True
      then show ?thesis
        using False pass_after_pass(2) [OF assms, of L b c] pass_after_pass(2) [OF qp, of L b c]
        by simp
    next
      case np: False
      then show ?thesis
        using False pass_after_pass(2) [OF assms, of L b c] pass_after_pass(2) [OF qp, of L b c]
          pass_frame [of c p L b] pass_frame [of c q L b]
        by simp
    qed
  qed
  show ?thesis
    using pass_after_pass(1) [OF assms, of L b] pass_after_pass(2) [OF assms, of L b] swap
    by (simp add: getitem_eq_iff)
qed

theorem passes_in_any_order_witness:
  "MovingAverages \<noteq> Volume
   \<and> fst (run_pass echo_lib Volume
        (snd (run_pass echo_lib MovingAverages (GoldFeatureEngineering ohlcv2)))) = None
   \<and> df_getitem (df (snd (run_pass echo_lib Volume
        (snd (run_pass echo_lib MovingAverages (GoldFeatureEngineering ohlcv2))))))
        ''Volume_SMA_20'' = Inr [NaN, NaN]
   \<and> df_getitem (df (snd (run_pass echo_lib Volume
        (snd (run_pass echo_lib MovingAverages (GoldFeatureEngineering ohlcv2))))))
        ''SMA_20'' = Inr [NaN, NaN]
   \<and> df_getitem (df (snd (run_pass echo_lib MovingAverages
        (snd (run_pass echo_lib Volume (GoldFeatureEngineering ohlcv2))))))
        ''Volume_SMA_20'' = Inr [NaN, NaN]
   \<and> df_getitem (df (snd (run_pass echo_lib MovingAverages
        (snd (run_pass echo_lib Volume (GoldFeatureEngineering ohlcv2))))))
        ''SMA_20'' = Inr [NaN, NaN]"
proof -
  have h: "MovingAverages \<noteq> Volume" by simp
  have v: "df_getitem (df (snd (add_volume_indicators echo_lib (GoldFeatureEngineering ohlcv2))))
        ''Volume_SMA_20'' = Inr [NaN, NaN]"
    using vol_result(3) [OF ohlcv2_columns(1,4), of echo_lib]
    by (simp add: getitem_iff ohlcv2_volume_mean)
  have m: "df_getitem (df (snd (add_moving_averages echo_lib (GoldFeatureEngineering ohlcv2))))
        ''SMA_20'' = Inr [NaN, NaN]"
  proof -
    have "sma_indicator 20 [Num 11, Num 12] = [NaN, NaN]"
      unfolding sma_indicator_def
      by (intro nth_equalityI) (auto simp: rolling_mean_short less_Suc_eq)
    then show ?thesis
      using ma_result(3) [OF ohlcv2_columns(1), of echo_lib] by (simp add: getitem_iff)
  qed
  have w: "fst (add_volume_indicators echo_lib (GoldFeatureEngineering ohlcv2)) = None"
    by (rule vol_result(1) [OF ohlcv2_columns(1,4)])
  note t = passes_in_any_order [OF h, of echo_lib "GoldFeatureEngineering ohlcv2"]
  have t1: "fst (run_pass echo_lib Volume
        (snd (run_pass echo_lib MovingAverages (GoldFeatureEngineering ohlcv2)))) = None"
    using t w by simp
  have t2: "df_getitem (df (snd (run_pass echo_lib Volume
        (snd (run_pass echo_lib MovingAverages (GoldFeatureEngineering ohlcv2)))))) c
      = (if c \<in> set (pass_columns Volume)
         then df_getitem (df (snd (run_pass echo_lib Volume (GoldFeatureEngineering ohlcv2)))) c
         else df_getitem (df (snd (run_pass echo_lib MovingAverages
                (GoldFeatureEngineering ohlcv2)))) c)" for c
    using t by blast
  have t3: "df_getitem (df (snd (run_pass echo_lib Volume
        (snd (run_pass echo_lib MovingAverages (GoldFeatureEngineering ohlcv2)))))) c
      = df_getitem (df (snd (run_pass echo_lib MovingAverages
        (snd (run_pass echo_lib Volume (GoldFeatureEngineering ohlcv2)))))) c" for c
    using t by blast
  have "df_getitem (df (snd (run_pass echo_lib Volume
        (snd (run_pass echo_lib MovingAverages (GoldFeatureEngineering ohlcv2))))))
        ''Volume_SMA_20'' = Inr [NaN, NaN]"
    and "df_getitem (df (snd (run_pass echo_lib Volume
        (snd (run_pass echo_lib MovingAverages (GoldFeatureEngineering ohlcv2))))))
        ''SMA_20'' = Inr [NaN, NaN]"
    using t2 [of "''Volume_SMA_20''"] t2 [of "''SMA_20''"] v m
    by (simp_all add: pass_columns_def)
  then show ?thesis
    using h t1 t3 [of "''Volume_SMA_20''"] t3 [of "''SMA_20''"] by simp
qed

text \<open>
  The exception the spec makes does not exist. On a table with a volume column the
  volume pass, called first on a new builder, completes and writes \<open>Volume_SMA_20\<close>
  and \<open>Volume_Ratio\<close> itself; the moving-average pass completes on the same table and
  leaves no column \<open>Volume_SMA_10\<close> or \<open>Volume_SMA_20\<close>.
\<close>

theorem volume_pass_needs_no_moving_averages:
  "fst (add_volume_indicators echo_lib (GoldFeatureEngineering ohlcv2)) = None
   \<and> df_getitem (df (snd (add_volume_indicators echo_lib (GoldFeatureEngineering ohlcv2))))
        ''Volume_SMA_20'' = Inr [NaN, NaN]
   \<and> df_getitem (df (snd (add_volume_indicators echo_lib (GoldFeatureEngineering ohlcv2))))
        ''Volume_Ratio'' = Inr [NaN, NaN]
   \<and> fst (add_moving_averages echo_lib (GoldFeatureEngineering ohlcv2)) = None
   \<and> df_getitem (df (snd (add_moving_averages echo_lib (GoldFeatureEngineering ohlcv2))))
        ''Volume_SMA_10'' = Inl (KeyError ''Volume_SMA_10'')
   \<and> df_getitem (df (snd (add_moving_averages echo_lib (GoldFeatureEngineering ohlcv2))))
        ''Volume_SMA_20'' = Inl (KeyError ''Volume_SMA_20'')"
proof -
  have a: "map_of (columns (df (snd (add_moving_averages echo_lib (GoldFeatureEngineering ohlcv2)))))
        ''Volume_SMA_10'' = None"
    "map_of (columns (df (snd (add_moving_averages echo_lib (GoldFeatureEngineering ohlcv2)))))
        ''Volume_SMA_20'' = None"
    using pass_frame [of "''Volume_SMA_10''" MovingAverages echo_lib "GoldFeatureEngineering ohlcv2"]
      pass_frame [of "''Volume_SMA_20''" MovingAverages echo_lib "GoldFeatureEngineering ohlcv2"]
    by (simp_all add: pass_columns_def GoldFeatureEngineering_def ohlcv2_def)
  show ?thesis
    using vol_result [OF ohlcv2_columns(1,4), of echo_lib] ma_result(1) [OF ohlcv2_columns(1), of echo_lib] a
    by (simp add: getitem_iff df_getitem_def ohlcv2_volume_mean series_div_def)
qed

end
